theory Spec2Isabelle
  imports Main "HOL-Library.Word"
begin

section \<open>Python values shared by the weather server and the chat client\<close>

text \<open>
  A Python \<open>str\<close> is a sequence of Unicode code points. The sources contain Japanese
  literals, so a string is modelled as the list of its code points and not as a list of
  8-bit characters. \<open>ascii\<close> embeds the ASCII literals of the sources.
\<close>

type_synonym pystr = "nat list"

definition ascii :: "string \<Rightarrow> pystr" where
  "ascii s = map of_char s"

definition NL :: pystr where
  "NL = [10]"

text \<open>\<open>sep.join(parts)\<close>.\<close>

fun join :: "pystr \<Rightarrow> pystr list \<Rightarrow> pystr" where
  "join sep [] = []"
| "join sep [x] = x"
| "join sep (x # y # ys) = x @ sep @ join sep (y # ys)"

text \<open>\<open>s.endswith(suffix)\<close>.\<close>

definition endswith :: "pystr \<Rightarrow> pystr \<Rightarrow> bool" where
  "endswith s suf = (length suf \<le> length s \<and> drop (length s - length suf) s = suf)"

text \<open>\<open>needle in haystack\<close> on two strings: a contiguous occurrence.\<close>

fun occurs_in :: "pystr \<Rightarrow> pystr \<Rightarrow> bool" where
  "occurs_in k [] = (k = [])"
| "occurs_in k (c # cs) = (take (length k) (c # cs) = k \<or> occurs_in k cs)"

text \<open>
  The exceptions the two programs can raise. \<open>Failed\<close> is any \<open>Exception\<close> raised by
  a collaborator (transport, tool provider, completion service, console), with its
  message; \<open>Interrupted\<close> is a \<open>BaseException\<close> that is not an \<open>Exception\<close>
  (\<open>KeyboardInterrupt\<close>, \<open>CancelledError\<close>), which \<open>except Exception\<close> does not catch.
  \<open>DictSliceError\<close> is what slicing a \<open>dict\<close> raises (a \<open>TypeError\<close> before
  Python 3.12, a \<open>KeyError\<close> from 3.12 on).
\<close>

datatype error =
    ValueError
  | IndexError
  | AttributeError
  | KeyError
  | TypeError
  | DictSliceError
  | ValidationError
  | Failed pystr
  | Interrupted

fun is_Exception :: "error \<Rightarrow> bool" where
  "is_Exception Interrupted = False"
| "is_Exception _ = True"

text \<open>
  What \<open>response.json()\<close> can return, and what a tool input is: \<open>None\<close>, a \<open>bool\<close>,
  an \<open>int\<close>, a \<open>float\<close> (its IEEE 754 double, as 64 bits), a \<open>str\<close>, a \<open>list\<close>,
  or a \<open>dict\<close> in insertion order (keys distinct in a value that was a \<open>dict\<close>;
  the first binding of a key is the one looked up).
\<close>

datatype json =
    JNull
  | JBool bool
  | JInt int
  | JFloat "64 word"
  | JStr pystr
  | JArr "json list"
  | JObj "(pystr \<times> json) list"

text \<open>Truth value testing (\<open>not x\<close> is its negation); \<open>0.0\<close> and \<open>-0.0\<close> are false.\<close>

fun truthy :: "json \<Rightarrow> bool" where
  "truthy JNull = False"
| "truthy (JBool b) = b"
| "truthy (JInt i) = (i \<noteq> 0)"
| "truthy (JFloat w) = (w \<noteq> 0 \<and> w \<noteq> 0x8000000000000000)"
| "truthy (JStr s) = (s \<noteq> [])"
| "truthy (JArr xs) = (xs \<noteq> [])"
| "truthy (JObj kv) = (kv \<noteq> [])"

text \<open>\<open>key in x\<close> for a string key: \<open>TypeError\<close> on a value that is not iterable.\<close>

fun py_in :: "pystr \<Rightarrow> json \<Rightarrow> error + bool" where
  "py_in k (JObj kv) = Inr (map_of kv k \<noteq> None)"
| "py_in k (JArr xs) = Inr (JStr k \<in> set xs)"
| "py_in k (JStr s) = Inr (occurs_in k s)"
| "py_in k _ = Inl TypeError"

text \<open>\<open>x[key]\<close> for a string key: \<open>KeyError\<close> on a \<open>dict\<close> without the key,
  \<open>TypeError\<close> on every value that is not a \<open>dict\<close>.\<close>

fun getitem :: "json \<Rightarrow> pystr \<Rightarrow> error + json" where
  "getitem (JObj kv) k = (case map_of kv k of None \<Rightarrow> Inl KeyError | Some v \<Rightarrow> Inr v)"
| "getitem _ k = Inl TypeError"

text \<open>\<open>d.get(key, default)\<close> on the items of a \<open>dict\<close>.\<close>

definition dict_get :: "(pystr \<times> json) list \<Rightarrow> pystr \<Rightarrow> json \<Rightarrow> json" where
  "dict_get kv k d = (case map_of kv k of None \<Rightarrow> d | Some v \<Rightarrow> v)"

text \<open>\<open>x[:5]\<close>.\<close>

fun slice5 :: "json \<Rightarrow> error + json" where
  "slice5 (JArr xs) = Inr (JArr (take 5 xs))"
| "slice5 (JStr s) = Inr (JStr (take 5 s))"
| "slice5 (JObj kv) = Inl DictSliceError"
| "slice5 _ = Inl TypeError"

text \<open>The elements \<open>for x in v\<close> visits: the items of a list, the keys of a \<open>dict\<close>,
  the one-character strings of a \<open>str\<close>; \<open>TypeError\<close> otherwise.\<close>

fun py_iter :: "json \<Rightarrow> error + json list" where
  "py_iter (JArr xs) = Inr xs"
| "py_iter (JObj kv) = Inr (map JStr (remdups (map fst kv)))"
| "py_iter (JStr s) = Inr (map (\<lambda>c. JStr [c]) s)"
| "py_iter _ = Inl TypeError"

text \<open>What an f-string substitutes for a value: a \<open>str\<close> is itself; the text of any
  other value is the interpreter's \<open>str()\<close>, a parameter of the model.\<close>

definition py_str :: "(json \<Rightarrow> pystr) \<Rightarrow> json \<Rightarrow> pystr" where
  "py_str str v = (case v of JStr s \<Rightarrow> s | _ \<Rightarrow> str v)"

text \<open>A loop that appends \<open>f x\<close> for each element and stops at the first exception.\<close>

fun collect :: "('a \<Rightarrow> error + 'b) \<Rightarrow> 'a list \<Rightarrow> error + 'b list" where
  "collect f [] = Inr []"
| "collect f (x # xs) =
     (case f x of
        Inl e \<Rightarrow> Inl e
      | Inr y \<Rightarrow> (case collect f xs of Inl e \<Rightarrow> Inl e | Inr ys \<Rightarrow> Inr (y # ys)))"

section \<open>The weather server (src/server/main.py)\<close>

definition WEATHER_API_BASE :: pystr where
  "WEATHER_API_BASE = ascii ''https://api.weather.gov''"

definition USER_AGENT :: pystr where
  "USER_AGENT = ascii ''weather-app/1.0''"

text \<open>
  The upstream HTTP service. \<open>client.get\<close> either raises (network failure, timeout:
  \<open>NoResponse\<close>) or returns a response with a status code and a body; the body is
  \<open>Some j\<close> when \<open>response.json()\<close> parses it to \<open>j\<close> and \<open>None\<close> when \<open>json()\<close>
  raises. \<open>raises_for_status\<close> says for which status codes \<open>raise_for_status()\<close>
  raises. The service has a state \<open>'w\<close> of its own, so two requests may differ.
\<close>

datatype http_response = NoResponse | Response nat "json option"

record 'w upstream =
  http_get :: "pystr \<Rightarrow> (pystr \<times> pystr) list \<Rightarrow> 'w \<Rightarrow> http_response \<times> 'w"
  raises_for_status :: "nat \<Rightarrow> bool"
  str_of :: "json \<Rightarrow> pystr"

text \<open>\<open>make_nws_request\<close>: every exception of the request is caught and becomes
  \<open>None\<close>, which is \<open>JNull\<close> here, as a body \<open>null\<close> is.\<close>

definition nws_headers :: "(pystr \<times> pystr) list" where
  "nws_headers = [(ascii ''User-Agent'', USER_AGENT),
                  (ascii ''Accept'', ascii ''application/geo+json'')]"

definition make_nws_request :: "'w upstream \<Rightarrow> pystr \<Rightarrow> 'w \<Rightarrow> json \<times> 'w" where
  "make_nws_request up url w =
     (case http_get up url nws_headers w of
        (NoResponse, w') \<Rightarrow> (JNull, w')
      | (Response status body, w') \<Rightarrow>
          if raises_for_status up status then (JNull, w')
          else (case body of None \<Rightarrow> (JNull, w') | Some j \<Rightarrow> (j, w')))"

text \<open>\<open>@validate_call\<close> on a parameter annotated \<open>str\<close> or \<open>dict\<close>.\<close>

fun validate_str :: "json \<Rightarrow> error + pystr" where
  "validate_str (JStr s) = Inr s"
| "validate_str _ = Inl ValidationError"

fun validate_dict :: "json \<Rightarrow> error + json" where
  "validate_dict (JObj kv) = Inr (JObj kv)"
| "validate_dict _ = Inl ValidationError"

text \<open>\<open>format_alert\<close>: \<open>feature["properties"]\<close> may raise; \<open>props.get\<close> raises
  \<open>AttributeError\<close> when \<open>props\<close> is not a \<open>dict\<close>.\<close>

definition format_alert :: "(json \<Rightarrow> pystr) \<Rightarrow> json \<Rightarrow> error + pystr" where
  "format_alert str feature0 =
     (case validate_dict feature0 of
        Inl e \<Rightarrow> Inl e
      | Inr feature \<Rightarrow>
         (case getitem feature (ascii ''properties'') of
            Inl e \<Rightarrow> Inl e
          | Inr props \<Rightarrow>
             (case props of
                JObj kv \<Rightarrow>
                  Inr (NL @ ascii ''Event: ''
                         @ py_str str (dict_get kv (ascii ''event'') (JStr (ascii ''Unknown'')))
                     @ NL @ ascii ''Area: ''
                         @ py_str str (dict_get kv (ascii ''areaDesc'') (JStr (ascii ''Unknown'')))
                     @ NL @ ascii ''Severity: ''
                         @ py_str str (dict_get kv (ascii ''severity'') (JStr (ascii ''Unknown'')))
                     @ NL @ ascii ''Description: ''
                         @ py_str str (dict_get kv (ascii ''description'')
                                         (JStr (ascii ''No description available'')))
                     @ NL @ ascii ''Instructions: ''
                         @ py_str str (dict_get kv (ascii ''instruction'')
                                         (JStr (ascii ''No specific instructions provided'')))
                     @ NL)
              | _ \<Rightarrow> Inl AttributeError)))"

text \<open>The two fixed answers of \<open>get_alerts\<close> (lines 63 and 66), by code point.\<close>

definition alerts_unavailable :: pystr where
  "alerts_unavailable =
     [12450, 12521, 12540, 12488, 12434, 21462, 24471, 12391, 12365, 12394, 12356, 12289,
      12414, 12383, 12399, 12450, 12521, 12540, 12488, 12364, 35211, 12388, 12363, 12425,
      12394, 12356]"

definition no_active_alerts :: pystr where
  "no_active_alerts =
     [12371, 12398, 29366, 24907, 12395, 23550, 12377, 12427, 12450, 12463, 12486, 12451,
      12502, 12394, 12450, 12521, 12540, 12488, 12399, 12354, 12426, 12414, 12379, 12435]"

definition alert_separator :: pystr where
  "alert_separator = NL @ ascii ''---'' @ NL"

definition alerts_url :: "pystr \<Rightarrow> pystr" where
  "alerts_url state = WEATHER_API_BASE @ ascii ''/alerts/active/area/'' @ state"

definition get_alerts :: "'w upstream \<Rightarrow> pystr \<Rightarrow> 'w \<Rightarrow> (error + pystr) \<times> 'w" where
  "get_alerts up state w =
     (case make_nws_request up (alerts_url state) w of
        (response_data, w') \<Rightarrow>
          (if \<not> truthy response_data then Inr alerts_unavailable
           else case py_in (ascii ''features'') response_data of
                  Inl e \<Rightarrow> Inl e
                | Inr present \<Rightarrow>
                   if \<not> present then Inr alerts_unavailable
                   else (case getitem response_data (ascii ''features'') of
                           Inl e \<Rightarrow> Inl e
                         | Inr features \<Rightarrow>
                            if \<not> truthy features then Inr no_active_alerts
                            else (case py_iter features of
                                    Inl e \<Rightarrow> Inl e
                                  | Inr fs \<Rightarrow>
                                     (case collect (format_alert (str_of up)) fs of
                                        Inl e \<Rightarrow> Inl e
                                      | Inr alerts \<Rightarrow> Inr (join alert_separator alerts)))),
           w'))"

text \<open>The two fixed answers of \<open>get_forecast\<close> (lines 87 and 94), by code point.\<close>

definition no_forecast_data :: pystr where
  "no_forecast_data =
     [12371, 12398, 22580, 25152, 12398, 20104, 22577, 12487, 12540, 12479, 12434, 21462,
      24471, 12391, 12365, 12414, 12379, 12435]"

definition no_detailed_forecast :: pystr where
  "no_detailed_forecast =
     [35443, 32048, 12394, 20104, 28204, 12434, 21462, 24471, 12391, 12365, 12394, 12356]"

text \<open>The body of the loop over \<open>periods[:5]\<close>: six subscripts, left to right,
  each of which may raise. Code point 176 is the degree sign.\<close>

definition format_period :: "(json \<Rightarrow> pystr) \<Rightarrow> json \<Rightarrow> error + pystr" where
  "format_period str period =
     (case getitem period (ascii ''name'') of Inl e \<Rightarrow> Inl e | Inr name \<Rightarrow>
     (case getitem period (ascii ''temperature'') of Inl e \<Rightarrow> Inl e | Inr temperature \<Rightarrow>
     (case getitem period (ascii ''temperatureUnit'') of Inl e \<Rightarrow> Inl e | Inr unit \<Rightarrow>
     (case getitem period (ascii ''windSpeed'') of Inl e \<Rightarrow> Inl e | Inr windSpeed \<Rightarrow>
     (case getitem period (ascii ''windDirection'') of Inl e \<Rightarrow> Inl e | Inr windDirection \<Rightarrow>
     (case getitem period (ascii ''detailedForecast'') of Inl e \<Rightarrow> Inl e | Inr detailed \<Rightarrow>
        Inr (NL @ py_str str name @ ascii '':''
           @ NL @ ascii ''Temperature: '' @ py_str str temperature @ [176] @ py_str str unit
           @ NL @ ascii ''Wind: '' @ py_str str windSpeed @ ascii '' '' @ py_str str windDirection
           @ NL @ ascii ''Forecast: '' @ py_str str detailed
           @ NL)))))))"

definition points_url :: "(json \<Rightarrow> pystr) \<Rightarrow> 64 word \<Rightarrow> 64 word \<Rightarrow> pystr" where
  "points_url str latitude longitude =
     WEATHER_API_BASE @ ascii ''/points/'' @ str (JFloat latitude) @ ascii '','' @ str (JFloat longitude)"

definition get_forecast ::
  "'w upstream \<Rightarrow> 64 word \<Rightarrow> 64 word \<Rightarrow> 'w \<Rightarrow> (error + pystr) \<times> 'w" where
  "get_forecast up latitude longitude w =
     (case make_nws_request up (points_url (str_of up) latitude longitude) w of
        (points_response_data, w1) \<Rightarrow>
          if \<not> truthy points_response_data then (Inr no_forecast_data, w1)
          else
           (case getitem points_response_data (ascii ''properties'') of
              Inl e \<Rightarrow> (Inl e, w1) | Inr points_properties \<Rightarrow>
           (case getitem points_properties (ascii ''forecast'') of
              Inl e \<Rightarrow> (Inl e, w1) | Inr forecast_url0 \<Rightarrow>
           (case validate_str forecast_url0 of
              Inl e \<Rightarrow> (Inl e, w1) | Inr forecast_url \<Rightarrow>
           (case make_nws_request up forecast_url w1 of
              (forecast_response_data, w2) \<Rightarrow>
                if \<not> truthy forecast_response_data then (Inr no_detailed_forecast, w2)
                else
                 (case getitem forecast_response_data (ascii ''properties'') of
                    Inl e \<Rightarrow> (Inl e, w2) | Inr forecast_properties \<Rightarrow>
                 (case getitem forecast_properties (ascii ''periods'') of
                    Inl e \<Rightarrow> (Inl e, w2) | Inr periods \<Rightarrow>
                 (case slice5 periods of
                    Inl e \<Rightarrow> (Inl e, w2) | Inr first_periods \<Rightarrow>
                 (case py_iter first_periods of
                    Inl e \<Rightarrow> (Inl e, w2) | Inr ps \<Rightarrow>
                 (case collect (format_period (str_of up)) ps of
                    Inl e \<Rightarrow> (Inl e, w2)
                  | Inr forecasts \<Rightarrow> (Inr (join alert_separator forecasts), w2)))))))))))"

section \<open>The chat client (src/client/main.py)\<close>

subsection \<open>Data\<close>

text \<open>
  An item of \<open>response.content\<close>: a block of type \<open>"text"\<close> with its \<open>text\<close>, a block
  of type \<open>"tool_use"\<close> with its \<open>id\<close>, \<open>name\<close> and \<open>input\<close>, or a block of any
  other type, which has no \<open>text\<close> attribute.
\<close>

datatype content_block =
    TextBlock pystr
  | ToolUseBlock pystr pystr json
  | OtherBlock

fun is_tool_use :: "content_block \<Rightarrow> bool" where
  "is_tool_use (ToolUseBlock i n a) = True"
| "is_tool_use _ = False"

fun is_text :: "content_block \<Rightarrow> bool" where
  "is_text (TextBlock t) = True"
| "is_text _ = False"

datatype role = User | Assistant

text \<open>
  The \<open>"content"\<close> of a message dict: the query string; a reference to a list object
  (the address of \<open>assistant_message_content\<close>, which the loop keeps mutating); or
  the literal one-element list holding a \<open>tool_result\<close> dict.
\<close>

datatype 'r msg_content =
    Plain pystr
  | ListRef nat
  | ToolResult pystr 'r

record 'r message =
  role :: role
  content :: "'r msg_content"

text \<open>What a call of \<open>messages.create\<close> is sent: the messages with every list
  reference read through the heap at the moment of the call.\<close>

datatype 'r sent_content =
    SentText pystr
  | SentBlocks "content_block list"
  | SentToolResult pystr 'r

type_synonym 'r sent_message = "role \<times> 'r sent_content"

definition resolve :: "(nat \<Rightarrow> content_block list) \<Rightarrow> 'r message \<Rightarrow> 'r sent_message" where
  "resolve h m =
     (role m, case content m of
                Plain q \<Rightarrow> SentText q
              | ListRef a \<Rightarrow> SentBlocks (h a)
              | ToolResult i r \<Rightarrow> SentToolResult i r)"

record tool =
  name :: pystr
  description :: json
  inputSchema :: json

record tool_param =
  param_name :: pystr
  param_description :: json
  param_input_schema :: json

text \<open>What the program prints, and the trace of its effects on the outside.\<close>

datatype printed =
    Usage
  | ToolNames "pystr list"
  | Banner
  | Answer pystr
  | ErrorLine error

datatype 'r event =
    Spawn pystr "pystr list"
  | ToolCall pystr json
  | Completion "'r sent_message list" "error + content_block list"
  | Continuation "'r sent_message list" "error + content_block list"
  | Cleanup
  | Printed printed

text \<open>
  The collaborators: the MCP session over the child process, the completion service,
  the console, and the library functions \<open>str()\<close>, \<open>str.strip\<close>, \<open>str.lower\<close>.
  Each call takes the outside world \<open>'w\<close> and returns it changed; \<open>Inl\<close> (or
  \<open>Some\<close> for a call without a result) is the exception the call raises.
\<close>

record ('r, 'w) env =
  open_stdio :: "pystr \<Rightarrow> pystr list \<Rightarrow> 'w \<Rightarrow> error option \<times> 'w"
  open_session :: "'w \<Rightarrow> error option \<times> 'w"
  initialize :: "'w \<Rightarrow> error option \<times> 'w"
  list_tools :: "'w \<Rightarrow> (error + tool list) \<times> 'w"
  call_tool :: "pystr \<Rightarrow> json \<Rightarrow> 'w \<Rightarrow> (error + 'r) \<times> 'w"
  messages_create ::
    "pystr \<Rightarrow> nat \<Rightarrow> 'r sent_message list \<Rightarrow> tool_param list \<Rightarrow> 'w
       \<Rightarrow> (error + content_block list) \<times> 'w"
  aclose :: "'w \<Rightarrow> error option \<times> 'w"
  read_input :: "'w \<Rightarrow> (error + pystr) \<times> 'w"
  repr_of :: "json \<Rightarrow> pystr"
  strip :: "pystr \<Rightarrow> pystr"
  lower :: "pystr \<Rightarrow> pystr"

text \<open>\<open>MCPClient\<close>: whether \<open>self.session\<close> is set, and how many contexts the exit
  stack holds.\<close>

record client =
  session :: bool
  exit_stack :: nat

definition new_client :: client where
  "new_client = \<lparr>session = False, exit_stack = 0\<rparr>"

text \<open>The state a run threads: the outside world and the trace, and, inside one
  \<open>process_query\<close>, its local \<open>messages\<close>, the heap of its list objects and
  \<open>final_text\<close>.\<close>

record ('r, 'w) state =
  world :: 'w
  trace :: "'r event list"
  messages :: "'r message list"
  heap :: "nat \<Rightarrow> content_block list"
  final_text :: "pystr list"

definition MODEL :: pystr where
  "MODEL = ascii ''claude-3-5-sonnet-20241022''"

definition MAX_TOKENS :: nat where
  "MAX_TOKENS = 1000"

text \<open>The address of the list \<open>assistant_message_content\<close>, the only list object of
  \<open>process_query\<close> that is stored and mutated afterwards.\<close>

definition assistant_message_content :: nat where
  "assistant_message_content = 0"

subsection \<open>connect_to_server\<close>

definition interpreter :: "pystr \<Rightarrow> error + pystr" where
  "interpreter server_script_path =
     (let is_python = endswith server_script_path (ascii ''.py'');
          is_js = endswith server_script_path (ascii ''.js'')
      in if \<not> (is_python \<or> is_js) then Inl ValueError
         else Inr (if is_python then ascii ''python'' else ascii ''node''))"

definition connect_to_server ::
  "('r, 'w) env \<Rightarrow> client \<Rightarrow> pystr \<Rightarrow> ('r, 'w) state
     \<Rightarrow> (error + unit) \<times> client \<times> ('r, 'w) state" where
  "connect_to_server env c server_script_path st =
     (case interpreter server_script_path of
        Inl e \<Rightarrow> (Inl e, c, st)
      | Inr command \<Rightarrow>
         (case open_stdio env command [server_script_path] (world st) of
            (r1, w1) \<Rightarrow>
              let st1 = st\<lparr>world := w1,
                           trace := trace st @ [Spawn command [server_script_path]]\<rparr>
              in (case r1 of
                    Some e \<Rightarrow> (Inl e, c, st1)
                  | None \<Rightarrow>
                     let c1 = c\<lparr>exit_stack := Suc (exit_stack c)\<rparr>
                     in (case open_session env w1 of
                           (Some e, w2) \<Rightarrow> (Inl e, c1, st1\<lparr>world := w2\<rparr>)
                         | (None, w2) \<Rightarrow>
                            let c2 = c1\<lparr>session := True, exit_stack := Suc (exit_stack c1)\<rparr>
                            in (case initialize env w2 of
                                  (Some e, w3) \<Rightarrow> (Inl e, c2, st1\<lparr>world := w3\<rparr>)
                                | (None, w3) \<Rightarrow>
                                   (case list_tools env w3 of
                                      (Inl e, w4) \<Rightarrow> (Inl e, c2, st1\<lparr>world := w4\<rparr>)
                                    | (Inr tools, w4) \<Rightarrow>
                                       (Inr (), c2,
                                        st1\<lparr>world := w4,
                                            trace := trace st1
                                              @ [Printed (ToolNames (map name tools))]\<rparr>)))))))"

subsection \<open>process_query\<close>

definition tool_schema :: "tool \<Rightarrow> tool_param" where
  "tool_schema t =
     \<lparr>param_name = name t, param_description = description t,
      param_input_schema = inputSchema t\<rparr>"

text \<open>Lines 70 to 100: the fresh conversation, the tool catalogue, the first
  completion, the two empty lists.\<close>

definition first_response ::
  "('r, 'w) env \<Rightarrow> client \<Rightarrow> pystr \<Rightarrow> ('r, 'w) state
     \<Rightarrow> (error + content_block list \<times> tool_param list) \<times> ('r, 'w) state" where
  "first_response env c query st0 =
     (let st = st0\<lparr>messages := [\<lparr>role = User, content = Plain query\<rparr>],
                   heap := (\<lambda>a. []), final_text := []\<rparr>
      in if \<not> session c then (Inl AttributeError, st)
         else
          (case list_tools env (world st) of
             (Inl e, w1) \<Rightarrow> (Inl e, st\<lparr>world := w1\<rparr>)
           | (Inr tools, w1) \<Rightarrow>
              let available_tools = map tool_schema tools;
                  sent = map (resolve (heap st)) (messages st)
              in (case messages_create env MODEL MAX_TOKENS sent available_tools w1 of
                    (r, w2) \<Rightarrow>
                      let st2 = st\<lparr>world := w2, trace := trace st @ [Completion sent r]\<rparr>
                      in (case r of
                            Inl e \<Rightarrow> (Inl e, st2)
                          | Inr response_content \<Rightarrow>
                             (Inr (response_content, available_tools), st2)))))"

definition calling_line :: "(json \<Rightarrow> pystr) \<Rightarrow> pystr \<Rightarrow> json \<Rightarrow> pystr" where
  "calling_line str tool_name tool_args =
     ascii ''[Calling tool '' @ tool_name @ ascii '' with args '' @ py_str str tool_args @ ascii '']''"

text \<open>Lines 103 to 145: the body of the loop for one block of the first response.\<close>

definition process_block ::
  "('r, 'w) env \<Rightarrow> tool_param list \<Rightarrow> content_block \<Rightarrow> ('r, 'w) state
     \<Rightarrow> (error + unit) \<times> ('r, 'w) state" where
  "process_block env available_tools block st =
     (case block of
        TextBlock t \<Rightarrow>
          (Inr (),
           st\<lparr>final_text := final_text st @ [t],
              heap := (heap st)(assistant_message_content :=
                         heap st assistant_message_content @ [block])\<rparr>)
      | ToolUseBlock tool_use_id tool_name tool_args \<Rightarrow>
          (case call_tool env tool_name tool_args (world st) of
             (Inl e, w1) \<Rightarrow>
               (Inl e, st\<lparr>world := w1, trace := trace st @ [ToolCall tool_name tool_args]\<rparr>)
           | (Inr result, w1) \<Rightarrow>
               let st1 = st\<lparr>world := w1,
                            trace := trace st @ [ToolCall tool_name tool_args],
                            final_text := final_text st
                              @ [calling_line (repr_of env) tool_name tool_args],
                            heap := (heap st)(assistant_message_content :=
                                       heap st assistant_message_content @ [block]),
                            messages := messages st
                              @ [\<lparr>role = Assistant, content = ListRef assistant_message_content\<rparr>,
                                 \<lparr>role = User, content = ToolResult tool_use_id result\<rparr>]\<rparr>;
                   sent = map (resolve (heap st1)) (messages st1)
               in (case messages_create env MODEL MAX_TOKENS sent available_tools w1 of
                     (r, w2) \<Rightarrow>
                       let st2 = st1\<lparr>world := w2, trace := trace st1 @ [Continuation sent r]\<rparr>
                       in (case r of
                             Inl e \<Rightarrow> (Inl e, st2)
                           | Inr [] \<Rightarrow> (Inl IndexError, st2)
                           | Inr (TextBlock t # others) \<Rightarrow>
                               (Inr (), st2\<lparr>final_text := final_text st2 @ [t]\<rparr>)
                           | Inr (b # others) \<Rightarrow> (Inl AttributeError, st2))))
      | OtherBlock \<Rightarrow> (Inr (), st))"

text \<open>Line 102: the loop runs over the content of the first response; rebinding
  \<open>response\<close> inside the body does not change what it iterates over.\<close>

fun process_content ::
  "('r, 'w) env \<Rightarrow> tool_param list \<Rightarrow> content_block list \<Rightarrow> ('r, 'w) state
     \<Rightarrow> (error + unit) \<times> ('r, 'w) state" where
  "process_content env available_tools [] st = (Inr (), st)"
| "process_content env available_tools (block # rest) st =
     (case process_block env available_tools block st of
        (Inl e, st') \<Rightarrow> (Inl e, st')
      | (Inr u, st') \<Rightarrow> process_content env available_tools rest st')"

definition process_query ::
  "('r, 'w) env \<Rightarrow> client \<Rightarrow> pystr \<Rightarrow> ('r, 'w) state \<Rightarrow> (error + pystr) \<times> ('r, 'w) state" where
  "process_query env c query st0 =
     (case first_response env c query st0 of
        (Inl e, st) \<Rightarrow> (Inl e, st)
      | (Inr (response_content, available_tools), st) \<Rightarrow>
         (case process_content env available_tools response_content st of
            (Inl e, st') \<Rightarrow> (Inl e, st')
          | (Inr u, st') \<Rightarrow> (Inr (join NL (final_text st')), st')))"

subsection \<open>chat_loop, cleanup and main\<close>

text \<open>
  One pass of \<open>while True\<close> and all that follow. The loop ends at \<open>quit\<close> and at
  an exception that \<open>except Exception\<close> does not catch; nothing bounds the number
  of passes, so not returning is the value \<open>None\<close>.
\<close>

partial_function (option) chat_iterations ::
  "('r, 'w) env \<Rightarrow> client \<Rightarrow> ('r, 'w) state \<Rightarrow> ((error + unit) \<times> ('r, 'w) state) option" where
  "chat_iterations env c st =
     (case read_input env (world st) of
        (Inl e, w1) \<Rightarrow>
          if is_Exception e
          then chat_iterations env c
                 (st\<lparr>world := w1, trace := trace st @ [Printed (ErrorLine e)]\<rparr>)
          else Some (Inl e, st\<lparr>world := w1\<rparr>)
      | (Inr line, w1) \<Rightarrow>
          if lower env (strip env line) = ascii ''quit'' then Some (Inr (), st\<lparr>world := w1\<rparr>)
          else (case process_query env c (strip env line) (st\<lparr>world := w1\<rparr>) of
                  (Inl e, st2) \<Rightarrow>
                    if is_Exception e
                    then chat_iterations env c
                           (st2\<lparr>trace := trace st2 @ [Printed (ErrorLine e)]\<rparr>)
                    else Some (Inl e, st2)
                | (Inr response, st2) \<Rightarrow>
                    chat_iterations env c
                      (st2\<lparr>trace := trace st2 @ [Printed (Answer response)]\<rparr>)))"

definition chat_loop ::
  "('r, 'w) env \<Rightarrow> client \<Rightarrow> ('r, 'w) state \<Rightarrow> ((error + unit) \<times> ('r, 'w) state) option" where
  "chat_loop env c st = chat_iterations env c (st\<lparr>trace := trace st @ [Printed Banner]\<rparr>)"

definition cleanup ::
  "('r, 'w) env \<Rightarrow> client \<Rightarrow> ('r, 'w) state \<Rightarrow> error option \<times> client \<times> ('r, 'w) state" where
  "cleanup env c st =
     (case aclose env (world st) of
        (r, w1) \<Rightarrow> (r, c\<lparr>exit_stack := 0\<rparr>, st\<lparr>world := w1, trace := trace st @ [Cleanup]\<rparr>))"

text \<open>How a run of \<open>main\<close> ends: it returns, an exception leaves it, or
  \<open>sys.exit\<close> ends it with a status.\<close>

datatype outcome = Returned | Raised error | SystemExit nat

text \<open>The \<open>finally\<close> clause: \<open>cleanup\<close> runs whatever the \<open>try\<close> block did; an
  exception of \<open>cleanup\<close> itself replaces the pending one.\<close>

definition finally_cleanup ::
  "('r, 'w) env \<Rightarrow> client \<Rightarrow> error + unit \<Rightarrow> ('r, 'w) state \<Rightarrow> outcome \<times> ('r, 'w) state" where
  "finally_cleanup env c r st =
     (case cleanup env c st of
        (Some e', c', st') \<Rightarrow> (Raised e', st')
      | (None, c', st') \<Rightarrow> (case r of Inl e \<Rightarrow> (Raised e, st') | Inr u \<Rightarrow> (Returned, st')))"

definition start :: "'w \<Rightarrow> ('r, 'w) state" where
  "start w = \<lparr>world = w, trace = [], messages = [], heap = (\<lambda>a. []), final_text = []\<rparr>"

definition main :: "('r, 'w) env \<Rightarrow> pystr list \<Rightarrow> 'w \<Rightarrow> (outcome \<times> ('r, 'w) state) option" where
  "main env argv w =
     (if length argv < 2
      then Some (SystemExit 1, (start w)\<lparr>trace := [Printed Usage]\<rparr>)
      else
       (case connect_to_server env new_client (argv ! 1) (start w) of
          (Inl e, c, st) \<Rightarrow> Some (finally_cleanup env c (Inl e) st)
        | (Inr u, c, st) \<Rightarrow>
           (case chat_loop env c st of
              None \<Rightarrow> None
            | Some (r, st') \<Rightarrow> Some (finally_cleanup env c r st'))))"

section \<open>Concrete collaborators for the examples\<close>

text \<open>An upstream that answers the n-th request with the n-th reply of a script.
  Its \<open>str()\<close> is a placeholder: no example depends on the text of a value that
  is not a string.\<close>

definition scripted :: "http_response list \<Rightarrow> nat upstream" where
  "scripted rs =
     \<lparr>http_get = (\<lambda>url hdrs n. (if n < length rs then rs ! n else NoResponse, Suc n)),
      raises_for_status = (\<lambda>status. status < 200 \<or> 300 \<le> status),
      str_of = (\<lambda>v. ascii ''?'')\<rparr>"

definition ascii_lower :: "pystr \<Rightarrow> pystr" where
  "ascii_lower s = map (\<lambda>c. if 65 \<le> c \<and> c \<le> 90 then c + 32 else c) s"

definition ascii_strip :: "pystr \<Rightarrow> pystr" where
  "ascii_strip s =
     rev (dropWhile (\<lambda>c. c \<in> {9, 10, 11, 12, 13, 32})
            (rev (dropWhile (\<lambda>c. c \<in> {9, 10, 11, 12, 13, 32}) s)))"

text \<open>
  A session whose server starts and whose tools answer \<open>"sunny"\<close>; the console gives
  the lines of a script and then end of file; the completion service gives the
  responses of a script. The world counts the lines read and the completions made.
  \<open>str()\<close> is given for the empty \<open>dict\<close>, the only tool input of the examples;
  \<open>strip\<close> and \<open>lower\<close> are those of ASCII text.
\<close>

definition demo_env ::
  "(error + pystr) list \<Rightarrow> (error + content_block list) list \<Rightarrow> (json, nat \<times> nat) env" where
  "demo_env inputs responses =
     \<lparr>open_stdio = (\<lambda>command args w. (None, w)),
      open_session = (\<lambda>w. (None, w)),
      initialize = (\<lambda>w. (None, w)),
      list_tools = (\<lambda>w. (Inr [], w)),
      call_tool = (\<lambda>tool_name tool_args w. (Inr (JStr (ascii ''sunny'')), w)),
      messages_create = (\<lambda>model max_tokens sent tools w.
         (if snd w < length responses then responses ! snd w else Inl (Failed (ascii ''overloaded'')),
          (fst w, Suc (snd w)))),
      aclose = (\<lambda>w. (None, w)),
      read_input = (\<lambda>w.
         (if fst w < length inputs then inputs ! fst w else Inl (Failed (ascii ''EOF'')),
          (Suc (fst w), snd w))),
      repr_of = (\<lambda>v. ascii ''{}''),
      strip = ascii_strip,
      lower = ascii_lower\<rparr>"

definition connected :: client where
  "connected = \<lparr>session = True, exit_stack = 2\<rparr>"

text \<open>Responses of the completion service for the examples, the collaborators that
  give them, and a session whose server cannot be started.\<close>

definition demo_first :: "content_block list" where
  "demo_first =
     [TextBlock (ascii ''Checking.''),
      ToolUseBlock (ascii ''tu_1'') (ascii ''get_alerts'') (JObj []),
      TextBlock (ascii ''Done.'')]"

definition demo_second :: "content_block list" where
  "demo_second =
     [TextBlock (ascii ''No alerts.''),
      ToolUseBlock (ascii ''tu_2'') (ascii ''get_forecast'') (JObj [])]"

definition demo_texts :: "content_block list" where
  "demo_texts = [TextBlock (ascii ''Sunny.''), TextBlock (ascii ''Mild.'')]"

definition demo_two :: "content_block list" where
  "demo_two =
     [TextBlock (ascii ''Checking.''),
      ToolUseBlock (ascii ''tu_1'') (ascii ''get_alerts'') (JObj []),
      ToolUseBlock (ascii ''tu_2'') (ascii ''get_forecast'') (JObj [])]"

definition one_hop :: "(json, nat \<times> nat) env" where
  "one_hop = demo_env [] [Inr demo_first, Inr demo_second]"

definition two_texts :: "(json, nat \<times> nat) env" where
  "two_texts = demo_env [] [Inr demo_texts]"

definition two_hops :: "(json, nat \<times> nat) env" where
  "two_hops = demo_env []
     [Inr demo_two, Inr [TextBlock (ascii ''No alerts.'')], Inr [TextBlock (ascii ''Sunny.'')]]"

definition empty_continuation :: "(json, nat \<times> nat) env" where
  "empty_continuation = demo_env [] [Inr demo_first, Inr []]"

definition tool_continuation :: "(json, nat \<times> nat) env" where
  "tool_continuation = demo_env [] [Inr demo_first, Inr (rev demo_second)]"

definition no_server :: "(json, nat \<times> nat) env" where
  "no_server = (demo_env [] [])\<lparr>open_stdio := (\<lambda>command args w. (Some (Failed (ascii ''spawn'')), w))\<rparr>"

definition demo_argv :: "pystr list" where
  "demo_argv = [ascii ''client.py'', ascii ''weather.py'']"

text \<open>
  A session like the one above whose tool provider keeps the list of the calls it
  received: the world is the number of completions made and that list.
\<close>

definition recording_env ::
  "(error + content_block list) list \<Rightarrow> (json, nat \<times> (pystr \<times> json) list) env" where
  "recording_env responses =
     \<lparr>open_stdio = (\<lambda>command args w. (None, w)),
      open_session = (\<lambda>w. (None, w)),
      initialize = (\<lambda>w. (None, w)),
      list_tools = (\<lambda>w. (Inr [], w)),
      call_tool = (\<lambda>tool_name tool_args w.
         (Inr (JStr (ascii ''sunny'')), (fst w, snd w @ [(tool_name, tool_args)]))),
      messages_create = (\<lambda>model max_tokens sent tools w.
         (if fst w < length responses then responses ! fst w else Inl (Failed (ascii ''overloaded'')),
          (Suc (fst w), snd w))),
      aclose = (\<lambda>w. (None, w)),
      read_input = (\<lambda>w. (Inl (Failed (ascii ''EOF'')), w)),
      repr_of = (\<lambda>v. ascii ''{}''),
      strip = ascii_strip,
      lower = ascii_lower\<rparr>"

definition one_hop_recorded :: "(json, nat \<times> (pystr \<times> json) list) env" where
  "one_hop_recorded = recording_env [Inr demo_first, Inr demo_second]"

section \<open>Auxiliary notions for stating the properties\<close>

text \<open>The tool calls and the continuation completions recorded in a trace.\<close>

fun tool_calls :: "'r event list \<Rightarrow> (pystr \<times> json) list" where
  "tool_calls [] = []"
| "tool_calls (ToolCall n a # evs) = (n, a) # tool_calls evs"
| "tool_calls (ev # evs) = tool_calls evs"

fun continuations :: "'r event list \<Rightarrow> (error + content_block list) list" where
  "continuations [] = []"
| "continuations (Continuation sent r # evs) = r # continuations evs"
| "continuations (ev # evs) = continuations evs"

text \<open>The name and input of every \<open>tool_use\<close> block of a response, in order.\<close>

fun tool_uses :: "content_block list \<Rightarrow> (pystr \<times> json) list" where
  "tool_uses [] = []"
| "tool_uses (ToolUseBlock i n a # bs) = (n, a) # tool_uses bs"
| "tool_uses (b # bs) = tool_uses bs"

text \<open>The events a step added to the trace.\<close>

definition new_events :: "('r, 'w) state \<Rightarrow> ('r, 'w) state \<Rightarrow> 'r event list" where
  "new_events st st' = drop (length (trace st)) (trace st')"

text \<open>A forecast document without the periods after the fifth, and an upstream
  whose every JSON body is cut that way.\<close>

definition keep5 :: "json \<Rightarrow> json" where
  "keep5 v = (case v of JArr ps \<Rightarrow> JArr (take 5 ps) | _ \<Rightarrow> v)"

definition on_key :: "pystr \<Rightarrow> (json \<Rightarrow> json) \<Rightarrow> json \<Rightarrow> json" where
  "on_key k f v =
     (case v of
        JObj kv \<Rightarrow> JObj (map (\<lambda>(k', x). if k' = k then (k', f x) else (k', x)) kv)
      | _ \<Rightarrow> v)"

definition drop_later_periods :: "json \<Rightarrow> json" where
  "drop_later_periods = on_key (ascii ''properties'') (on_key (ascii ''periods'') keep5)"

definition truncated :: "'w upstream \<Rightarrow> 'w upstream" where
  "truncated up =
     up\<lparr>http_get := (\<lambda>url hdrs w.
           case http_get up url hdrs w of
             (Response status (Some j), w') \<Rightarrow> (Response status (Some (drop_later_periods j)), w')
           | r \<Rightarrow> r)\<rparr>"

text \<open>The two halves of \<open>get_forecast\<close> around its second request, named for the proofs.\<close>

definition forecast_url_of :: "json \<Rightarrow> error + pystr" where
  "forecast_url_of p =
     (case getitem p (ascii ''properties'') of Inl e \<Rightarrow> Inl e | Inr pp \<Rightarrow>
     (case getitem pp (ascii ''forecast'') of Inl e \<Rightarrow> Inl e | Inr u \<Rightarrow> validate_str u))"

definition render_forecast :: "(json \<Rightarrow> pystr) \<Rightarrow> json \<Rightarrow> error + pystr" where
  "render_forecast str f =
     (case getitem f (ascii ''properties'') of Inl e \<Rightarrow> Inl e | Inr fp \<Rightarrow>
     (case getitem fp (ascii ''periods'') of Inl e \<Rightarrow> Inl e | Inr periods \<Rightarrow>
     (case slice5 periods of Inl e \<Rightarrow> Inl e | Inr first_periods \<Rightarrow>
     (case py_iter first_periods of Inl e \<Rightarrow> Inl e | Inr ps \<Rightarrow>
     (case collect (format_period str) ps of Inl e \<Rightarrow> Inl e
      | Inr forecasts \<Rightarrow> Inr (join alert_separator forecasts))))))"

text \<open>The texts of the \<open>text\<close> blocks of a response, and the blocks the loop
  appends to \<open>assistant_message_content\<close> (every \<open>text\<close> and \<open>tool_use\<close> block).\<close>

fun texts :: "content_block list \<Rightarrow> pystr list" where
  "texts [] = []"
| "texts (TextBlock t # bs) = t # texts bs"
| "texts (b # bs) = texts bs"

definition kept :: "content_block list \<Rightarrow> content_block list" where
  "kept bs = filter (\<lambda>b. is_text b \<or> is_tool_use b) bs"

text \<open>
  What the output buffer is to hold after the loop, told from the first response and
  the outcomes of the continuation calls in order: the text of a \<open>text\<close> block; for
  a \<open>tool_use\<close> block the line naming the call and then the text of the first
  block of its continuation, and nothing else of that continuation.
\<close>

fun first_text :: "error + content_block list \<Rightarrow> pystr list" where
  "first_text (Inr (TextBlock t # others)) = [t]"
| "first_text r = []"

fun expected ::
  "(json \<Rightarrow> pystr) \<Rightarrow> content_block list \<Rightarrow> (error + content_block list) list \<Rightarrow> pystr list" where
  "expected str [] rs = []"
| "expected str (TextBlock t # bs) rs = t # expected str bs rs"
| "expected str (OtherBlock # bs) rs = expected str bs rs"
| "expected str (ToolUseBlock i n a # bs) [] = [calling_line str n a]"
| "expected str (ToolUseBlock i n a # bs) (r # rs) =
     calling_line str n a # first_text r @ expected str bs rs"

text \<open>What each continuation call was sent, and the number of \<open>cleanup\<close> calls.\<close>

fun continuation_inputs :: "'r event list \<Rightarrow> 'r sent_message list list" where
  "continuation_inputs [] = []"
| "continuation_inputs (Continuation sent r # evs) = sent # continuation_inputs evs"
| "continuation_inputs (ev # evs) = continuation_inputs evs"

fun cleanups :: "'r event list \<Rightarrow> nat" where
  "cleanups [] = 0"
| "cleanups (Cleanup # evs) = Suc (cleanups evs)"
| "cleanups (ev # evs) = cleanups evs"

text \<open>Every assistant message of a conversation holds the reference to
  \<open>assistant_message_content\<close>.\<close>

definition assistant_ok :: "'r message list \<Rightarrow> bool" where
  "assistant_ok ms = (\<forall>m \<in> set ms. role m = Assistant \<longrightarrow> content m = ListRef assistant_message_content)"

text \<open>
  \<open>calls\<close> reads, from the outside world, the record the tool provider keeps of the
  invocations it received: \<open>call_tool\<close> extends it by its name and input, and the
  other collaborators \<open>process_query\<close> uses leave it alone.
\<close>

definition records_calls :: "('r, 'w) env \<Rightarrow> ('w \<Rightarrow> (pystr \<times> json) list) \<Rightarrow> bool" where
  "records_calls env calls =
     ((\<forall>m x w. calls (snd (call_tool env m x w)) = calls w @ [(m, x)])
      \<and> (\<forall>md k sent ts w. calls (snd (messages_create env md k sent ts w)) = calls w)
      \<and> (\<forall>w. calls (snd (list_tools env w)) = calls w))"

section \<open>Properties of the weather server\<close>

lemma sentinels_differ: "alerts_unavailable \<noteq> no_active_alerts"
  by (simp add: alerts_unavailable_def no_active_alerts_def)

text \<open>Every exception of the request itself (no response, a status that
  \<open>raise_for_status\<close> rejects, a body that is not JSON) becomes \<open>None\<close>, and both
  tools answer \<open>None\<close> with a fixed string.\<close>

lemma request_failure_is_None:
  "fst (http_get up url nws_headers w) = NoResponse
     \<or> (\<exists>status body. fst (http_get up url nws_headers w) = Response status body
           \<and> (raises_for_status up status \<or> body = None))
   \<Longrightarrow> fst (make_nws_request up url w) = JNull"
  by (cases "http_get up url nws_headers w")
     (auto simp: make_nws_request_def split: http_response.splits option.splits)

lemma tools_absorb_request_failure:
  "fst (make_nws_request up (alerts_url state) w) = JNull
     \<Longrightarrow> fst (get_alerts up state w) = Inr alerts_unavailable"
  "fst (make_nws_request up (points_url (str_of up) latitude longitude) w) = JNull
     \<Longrightarrow> fst (get_forecast up latitude longitude w) = Inr no_forecast_data"
  by (auto simp: get_alerts_def get_forecast_def split: prod.splits)

text \<open>
  Claim C5. The tools are to answer every upstream outcome, unusable response data
  included, with a string and never with an exception. A response with status 200
  whose JSON document lacks \<open>"properties"\<close> makes \<open>get_forecast\<close> raise \<open>KeyError\<close>
  at line 90, and a feature without \<open>"properties"\<close> makes \<open>get_alerts\<close> raise
  \<open>KeyError\<close> in \<open>format_alert\<close>: only a missing \<open>"features"\<close> key is guarded.
\<close>

theorem get_forecast_unexpected_document:
  "fst (get_forecast (scripted [Response 200 (Some (JObj [(ascii ''status'', JInt 404)]))]) 0 0 0)
     = Inl KeyError
   \<and> fst (get_alerts (scripted [Response 200 (Some (JObj [(ascii ''features'', JArr [JObj []])]))])
            (ascii ''CA'') 0) = Inl KeyError"
  by (simp add: get_forecast_def get_alerts_def make_nws_request_def scripted_def
        format_alert_def ascii_def)

text \<open>
  What \<open>get_alerts\<close> does answer with a fixed string: one string when the request
  gave no response, a rejected status, a body that is not JSON, a false document or
  a document in which \<open>"features"\<close> does not occur; another string when the request
  succeeded and the feature list is empty; and the two strings differ.
\<close>

lemma get_alerts_fixed_answers:
  "(fst (http_get up (alerts_url state) nws_headers w) = NoResponse
      \<longrightarrow> fst (get_alerts up state w) = Inr alerts_unavailable)
   \<and> (\<forall>status body. fst (http_get up (alerts_url state) nws_headers w) = Response status body
         \<and> (raises_for_status up status \<or> body = None)
      \<longrightarrow> fst (get_alerts up state w) = Inr alerts_unavailable)
   \<and> (\<forall>status j. fst (http_get up (alerts_url state) nws_headers w) = Response status (Some j)
         \<and> (\<not> truthy j \<or> py_in (ascii ''features'') j = Inr False)
      \<longrightarrow> fst (get_alerts up state w) = Inr alerts_unavailable)
   \<and> (\<forall>status kv. fst (http_get up (alerts_url state) nws_headers w) = Response status (Some (JObj kv))
         \<and> \<not> raises_for_status up status
         \<and> map_of kv (ascii ''features'') = Some (JArr [])
      \<longrightarrow> fst (get_alerts up state w) = Inr no_active_alerts)
   \<and> alerts_unavailable \<noteq> no_active_alerts"
  by (cases "http_get up (alerts_url state) nws_headers w")
     (auto simp: get_alerts_def make_nws_request_def sentinels_differ
           split: http_response.splits option.splits prod.splits sum.splits)

lemma get_alerts_fixed_answers_example:
  "fst (get_alerts (scripted []) (ascii ''CA'') 0) = Inr alerts_unavailable
   \<and> fst (get_alerts (scripted [Response 503 None]) (ascii ''CA'') 0) = Inr alerts_unavailable
   \<and> fst (get_alerts (scripted [Response 200 (Some (JObj [(ascii ''title'', JStr (ascii ''x''))]))])
            (ascii ''CA'') 0) = Inr alerts_unavailable
   \<and> fst (get_alerts (scripted [Response 200 (Some (JObj [(ascii ''features'', JArr [])]))])
            (ascii ''CA'') 0) = Inr no_active_alerts
   \<and> alerts_unavailable \<noteq> no_active_alerts"
  using get_alerts_fixed_answers [of "scripted []" "ascii ''CA''" 0]
        get_alerts_fixed_answers [of "scripted [Response 503 None]" "ascii ''CA''" 0]
        get_alerts_fixed_answers
          [of "scripted [Response 200 (Some (JObj [(ascii ''title'', JStr (ascii ''x''))]))]"
              "ascii ''CA''" 0]
        get_alerts_fixed_answers
          [of "scripted [Response 200 (Some (JObj [(ascii ''features'', JArr [])]))]"
              "ascii ''CA''" 0]
  by (simp add: scripted_def ascii_def)

text \<open>
  Claim C6. \<open>get_alerts\<close> is to answer every missing or unusable upstream response
  with the one fixed string of line 63. It does not: on a response with status 200
  whose document is the number \<open>5\<close>, line 62 raises \<open>TypeError\<close>
  (\<open>"features" not in 5\<close>); on the list \<open>["features"]\<close> line 65 raises
  \<open>TypeError\<close>; on \<open>{"features": "x"}\<close> and on
  \<open>{"features": [{"properties": null}]}\<close> \<open>format_alert\<close> raises. The guard of
  line 62 covers only the documents it can test for the key.
\<close>

theorem get_alerts_unusable_document:
  "fst (get_alerts (scripted [Response 200 (Some (JInt 5))]) (ascii ''CA'') 0) = Inl TypeError
   \<and> fst (get_alerts (scripted [Response 200 (Some (JArr [JStr (ascii ''features'')]))])
            (ascii ''CA'') 0) = Inl TypeError
   \<and> fst (get_alerts (scripted [Response 200 (Some (JObj [(ascii ''features'', JStr (ascii ''x''))]))])
            (ascii ''CA'') 0) = Inl ValidationError
   \<and> fst (get_alerts
             (scripted [Response 200
                (Some (JObj [(ascii ''features'', JArr [JObj [(ascii ''properties'', JNull)]])]))])
            (ascii ''CA'') 0) = Inl AttributeError"
  by (simp add: get_alerts_def make_nws_request_def scripted_def format_alert_def ascii_def)

subsection \<open>The forecast reads five periods at most\<close>

lemma map_of_on_key:
  "map_of (map (\<lambda>(k', x). if k' = k then (k', f x) else (k', x)) kv) q =
     (if q = k then map_option f (map_of kv k) else map_of kv q)"
  by (induction kv) auto

lemma getitem_on_key_same:
  "getitem (on_key k f v) k = (case getitem v k of Inl e \<Rightarrow> Inl e | Inr x \<Rightarrow> Inr (f x))"
  by (cases v) (simp_all add: on_key_def map_of_on_key split: option.splits)

lemma getitem_on_key_other: "q \<noteq> k \<Longrightarrow> getitem (on_key k f v) q = getitem v q"
  by (cases v) (simp_all add: on_key_def map_of_on_key)

lemma truthy_on_key: "truthy (on_key k f v) = truthy v"
  by (cases v) (simp_all add: on_key_def)

lemma slice5_keep5: "slice5 (keep5 v) = slice5 v"
  by (cases v) (simp_all add: keep5_def)

lemma forecast_not_periods: "ascii ''forecast'' \<noteq> ascii ''periods''"
  by (simp add: ascii_def)

lemma make_nws_request_truncated:
  "make_nws_request (truncated up) url w =
     (case make_nws_request up url w of (j, w') \<Rightarrow> (drop_later_periods j, w'))"
  by (simp add: make_nws_request_def truncated_def drop_later_periods_def on_key_def
           split: prod.splits http_response.splits option.splits)

lemma after_properties:
  "getitem (drop_later_periods j) (ascii ''properties'') =
     (case getitem j (ascii ''properties'') of
        Inl e \<Rightarrow> Inl e | Inr x \<Rightarrow> Inr (on_key (ascii ''periods'') keep5 x))"
  by (simp add: drop_later_periods_def getitem_on_key_same)

lemma get_forecast_steps:
  "get_forecast up latitude longitude w =
     (case make_nws_request up (points_url (str_of up) latitude longitude) w of
        (p, w1) \<Rightarrow>
          if \<not> truthy p then (Inr no_forecast_data, w1)
          else (case forecast_url_of p of
                  Inl e \<Rightarrow> (Inl e, w1)
                | Inr u \<Rightarrow>
                   (case make_nws_request up u w1 of
                      (f, w2) \<Rightarrow>
                        if \<not> truthy f then (Inr no_detailed_forecast, w2)
                        else (render_forecast (str_of up) f, w2))))"
  unfolding get_forecast_def forecast_url_of_def render_forecast_def
  by (simp split: prod.splits sum.splits)

lemma forecast_url_of_truncated: "forecast_url_of (drop_later_periods p) = forecast_url_of p"
  by (simp add: forecast_url_of_def after_properties getitem_on_key_other forecast_not_periods
           split: sum.splits)

lemma render_forecast_truncated:
  "render_forecast str (drop_later_periods f) = render_forecast str f"
  by (simp add: render_forecast_def after_properties getitem_on_key_same slice5_keep5
           split: sum.splits)

lemma truthy_truncated: "truthy (drop_later_periods j) = truthy j"
  by (simp add: drop_later_periods_def truthy_on_key)

lemma str_of_truncated: "str_of (truncated up) = str_of up"
  by (simp add: truncated_def)

text \<open>
  Claim C7. Whatever the upstream returns, \<open>get_forecast\<close> gives the same result
  (string or exception, and the same requests) as on the upstream whose documents
  are cut after the fifth period: nothing of a later period reaches the result.
\<close>

theorem get_forecast_first_five:
  "get_forecast (truncated up) latitude longitude w = get_forecast up latitude longitude w"
  by (simp add: get_forecast_steps make_nws_request_truncated forecast_url_of_truncated
        render_forecast_truncated truthy_truncated str_of_truncated
      split: prod.splits sum.splits)

section \<open>Properties of the chat client\<close>

subsection \<open>connect_to_server\<close>

lemma py_not_js: "endswith p (ascii ''.py'') \<Longrightarrow> \<not> endswith p (ascii ''.js'')"
  by (auto simp: endswith_def ascii_def)

lemma interpreter_cases:
  "interpreter p =
     (if endswith p (ascii ''.py'') then Inr (ascii ''python'')
      else if endswith p (ascii ''.js'') then Inr (ascii ''node'')
      else Inl ValueError)"
  by (simp add: interpreter_def Let_def)

lemma connect_to_server_spawns:
  "interpreter p = Inr command \<Longrightarrow>
     take (Suc (length (trace st))) (trace (snd (snd (connect_to_server env c p st))))
       = trace st @ [Spawn command [p]]"
  by (simp add: connect_to_server_def Let_def split: prod.splits option.splits sum.splits)

text \<open>
  Claim C4. A path that ends neither in \<open>.py\<close> nor in \<open>.js\<close> makes
  \<open>connect_to_server\<close> raise \<open>ValueError\<close> with the client, the world and the trace
  untouched, so nothing was spawned. A path ending in \<open>.py\<close> selects \<open>python\<close>, one
  ending in \<open>.js\<close> selects \<open>node\<close>, and the first thing the call then does is to
  spawn that interpreter on the path.
\<close>

theorem connect_to_server_suffix:
  "(\<not> endswith p (ascii ''.py'') \<and> \<not> endswith p (ascii ''.js'')
      \<longrightarrow> connect_to_server env c p st = (Inl ValueError, c, st))
   \<and> (endswith p (ascii ''.py'')
      \<longrightarrow> interpreter p = Inr (ascii ''python'')
        \<and> take (Suc (length (trace st))) (trace (snd (snd (connect_to_server env c p st))))
            = trace st @ [Spawn (ascii ''python'') [p]])
   \<and> (endswith p (ascii ''.js'')
      \<longrightarrow> interpreter p = Inr (ascii ''node'')
        \<and> take (Suc (length (trace st))) (trace (snd (snd (connect_to_server env c p st))))
            = trace st @ [Spawn (ascii ''node'') [p]])"
proof (intro conjI impI)
  assume "\<not> endswith p (ascii ''.py'') \<and> \<not> endswith p (ascii ''.js'')"
  then show "connect_to_server env c p st = (Inl ValueError, c, st)"
    by (simp add: connect_to_server_def interpreter_cases)
next
  assume py: "endswith p (ascii ''.py'')"
  then show "interpreter p = Inr (ascii ''python'')" by (simp add: interpreter_cases)
  then show "take (Suc (length (trace st))) (trace (snd (snd (connect_to_server env c p st))))
            = trace st @ [Spawn (ascii ''python'') [p]]"
    by (rule connect_to_server_spawns)
next
  assume js: "endswith p (ascii ''.js'')"
  then have "\<not> endswith p (ascii ''.py'')" using py_not_js by blast
  with js show "interpreter p = Inr (ascii ''node'')" by (simp add: interpreter_cases)
  then show "take (Suc (length (trace st))) (trace (snd (snd (connect_to_server env c p st))))
            = trace st @ [Spawn (ascii ''node'') [p]]"
    by (rule connect_to_server_spawns)
qed

theorem connect_to_server_suffix_witness:
  "connect_to_server (demo_env [] []) new_client (ascii ''server.rb'') (start (0, 0))
     = (Inl ValueError, new_client, start (0, 0))
   \<and> interpreter (ascii ''weather.py'') = Inr (ascii ''python'')
   \<and> trace (snd (snd (connect_to_server (demo_env [] []) new_client (ascii ''weather.py'')
                         (start (0, 0)))))
        = [Spawn (ascii ''python'') [ascii ''weather.py''], Printed (ToolNames [])]
   \<and> interpreter (ascii ''index.js'') = Inr (ascii ''node'')
   \<and> trace (snd (snd (connect_to_server (demo_env [] []) new_client (ascii ''index.js'')
                         (start (0, 0)))))
        = [Spawn (ascii ''node'') [ascii ''index.js''], Printed (ToolNames [])]"
  using connect_to_server_suffix [of "ascii ''server.rb''" "demo_env [] []" new_client "start (0, 0)"]
        connect_to_server_suffix [of "ascii ''weather.py''" "demo_env [] []" new_client "start (0, 0)"]
        connect_to_server_suffix [of "ascii ''index.js''" "demo_env [] []" new_client "start (0, 0)"]
  by (simp add: endswith_def ascii_def connect_to_server_def interpreter_def demo_env_def start_def)

subsection \<open>process_query\<close>

text \<open>One pass of the loop: what it adds to the trace and to the output buffer.\<close>

lemma new_events_eq: "trace st' = trace st @ evs \<Longrightarrow> new_events st st' = evs"
  by (simp add: new_events_def)

lemma tool_calls_append: "tool_calls (xs @ ys) = tool_calls xs @ tool_calls ys"
  by (induction xs rule: tool_calls.induct) simp_all

lemma continuations_append: "continuations (xs @ ys) = continuations xs @ continuations ys"
  by (induction xs rule: continuations.induct) simp_all

lemma process_block_trace:
  "process_block env tools b st = (r, st') \<Longrightarrow> trace st' = trace st @ new_events st st'"
  by (cases b)
     (auto simp: process_block_def Let_def new_events_def
           split: prod.splits sum.splits list.splits content_block.splits)

lemma process_block_calls:
  "process_block env tools b st = (r, st') \<Longrightarrow> tool_calls (new_events st st') = tool_uses [b]"
  by (cases b)
     (auto simp: process_block_def Let_def new_events_def
           split: prod.splits sum.splits list.splits content_block.splits)

lemma process_block_continuations:
  "process_block env tools b st = (r, st') \<Longrightarrow>
     length (continuations (new_events st st')) \<le> length (tool_uses [b])"
  by (cases b)
     (auto simp: process_block_def Let_def new_events_def
           split: prod.splits sum.splits list.splits content_block.splits)

lemma process_block_success:
  "process_block env tools b st = (Inr u, st') \<Longrightarrow>
     length (continuations (new_events st st')) = length (tool_uses [b])
     \<and> final_text st' = final_text st @ expected (repr_of env) [b] (continuations (new_events st st'))
     \<and> (\<forall>r \<in> set (continuations (new_events st st')). \<exists>t others. r = Inr (TextBlock t # others))"
  by (cases b)
     (auto simp: process_block_def Let_def new_events_def
           split: prod.splits sum.splits list.splits content_block.splits)


lemma tool_uses_Cons: "tool_uses (b # bs) = tool_uses [b] @ tool_uses bs"
  by (cases b) simp_all

lemma expected_Cons:
  "length rs1 = length (tool_uses [b]) \<Longrightarrow>
     expected str (b # bs) (rs1 @ rs2) = expected str [b] rs1 @ expected str bs rs2"
  by (cases b; cases rs1) simp_all

lemma process_content_trace:
  "process_content env tools bs st = (r, st') \<Longrightarrow> trace st' = trace st @ new_events st st'"
proof (induction bs arbitrary: st)
  case Nil
  then show ?case by (simp add: new_events_def)
next
  case (Cons b bs)
  obtain r1 st1 where step: "process_block env tools b st = (r1, st1)"
    by (cases "process_block env tools b st")
  note t1 = process_block_trace [OF step]
  show ?case
  proof (cases r1)
    case (Inl e)
    with Cons.prems step have "st' = st1" by simp
    with t1 show ?thesis by blast
  next
    case (Inr u)
    with Cons.prems step have rest: "process_content env tools bs st1 = (r, st')" by simp
    have "trace st' = trace st @ (new_events st st1 @ new_events st1 st')"
      using Cons.IH [OF rest] t1 by (metis append_assoc)
    then show ?thesis using new_events_eq by metis
  qed
qed

lemma process_content_split:
  assumes "process_block env tools b st = (Inr u, st1)"
    and "process_content env tools bs st1 = (r, st')"
  shows "new_events st st' = new_events st st1 @ new_events st1 st'"
proof -
  have "trace st' = trace st @ (new_events st st1 @ new_events st1 st')"
    using process_block_trace [OF assms(1)] process_content_trace [OF assms(2)]
    by (metis append_assoc)
  then show ?thesis by (rule new_events_eq)
qed

lemma process_content_calls:
  "process_content env tools bs st = (r, st') \<Longrightarrow>
     \<exists>k. tool_calls (new_events st st') = take k (tool_uses bs)"
proof (induction bs arbitrary: st)
  case Nil
  then show ?case by (simp add: new_events_def)
next
  case (Cons b bs)
  obtain r1 st1 where step: "process_block env tools b st = (r1, st1)"
    by (cases "process_block env tools b st")
  note c1 = process_block_calls [OF step]
  show ?case
  proof (cases r1)
    case (Inl e)
    with Cons.prems step have "st' = st1" by simp
    with c1 have "tool_calls (new_events st st') = take (length (tool_uses [b])) (tool_uses (b # bs))"
      by (simp add: tool_uses_Cons [of b bs])
    then show ?thesis by blast
  next
    case (Inr u)
    with Cons.prems step have rest: "process_content env tools bs st1 = (r, st')" by simp
    from Cons.IH [OF rest] obtain k where k: "tool_calls (new_events st1 st') = take k (tool_uses bs)"
      by blast
    have "new_events st st' = new_events st st1 @ new_events st1 st'"
      using process_content_split step rest Inr by blast
    with c1 k have "tool_calls (new_events st st')
        = take (length (tool_uses [b]) + k) (tool_uses (b # bs))"
      by (simp add: tool_calls_append tool_uses_Cons [of b bs])
    then show ?thesis by blast
  qed
qed

lemma process_content_continuations:
  "process_content env tools bs st = (r, st') \<Longrightarrow>
     length (continuations (new_events st st')) \<le> length (tool_calls (new_events st st'))"
proof (induction bs arbitrary: st)
  case Nil
  then show ?case by (simp add: new_events_def)
next
  case (Cons b bs)
  obtain r1 st1 where step: "process_block env tools b st = (r1, st1)"
    by (cases "process_block env tools b st")
  note c1 = process_block_calls [OF step] and k1 = process_block_continuations [OF step]
  show ?case
  proof (cases r1)
    case (Inl e)
    with Cons.prems step have "st' = st1" by simp
    with c1 k1 show ?thesis by simp
  next
    case (Inr u)
    with Cons.prems step have rest: "process_content env tools bs st1 = (r, st')" by simp
    have "new_events st st' = new_events st st1 @ new_events st1 st'"
      using process_content_split step rest Inr by blast
    with c1 k1 Cons.IH [OF rest] show ?thesis
      by (simp add: tool_calls_append continuations_append)
  qed
qed

lemma process_content_success:
  "process_content env tools bs st = (Inr u, st') \<Longrightarrow>
     tool_calls (new_events st st') = tool_uses bs
     \<and> length (continuations (new_events st st')) = length (tool_uses bs)
     \<and> final_text st' = final_text st @ expected (repr_of env) bs (continuations (new_events st st'))
     \<and> (\<forall>r \<in> set (continuations (new_events st st')). \<exists>t others. r = Inr (TextBlock t # others))"
proof (induction bs arbitrary: st)
  case Nil
  then show ?case by (simp add: new_events_def)
next
  case (Cons b bs)
  obtain r1 st1 where step: "process_block env tools b st = (r1, st1)"
    by (cases "process_block env tools b st")
  show ?case
  proof (cases r1)
    case (Inl e)
    with Cons.prems step show ?thesis by simp
  next
    case (Inr v)
    with Cons.prems step have rest: "process_content env tools bs st1 = (Inr u, st')" by simp
    have split: "new_events st st' = new_events st st1 @ new_events st1 st'"
      using process_content_split step rest Inr by blast
    from step Inr have s1: "process_block env tools b st = (Inr v, st1)" by simp
    note a = process_block_success [OF s1] and c = process_block_calls [OF s1]
      and ih = Cons.IH [OF rest]
    from a c ih split show ?thesis
      by (auto simp: tool_calls_append continuations_append expected_Cons tool_uses_Cons [of b bs])
  qed
qed

lemma first_response_Inr:
  "first_response env c query st0 = (Inr (bs, tools), st1) \<Longrightarrow>
     final_text st1 = [] \<and> heap st1 = (\<lambda>a. [])
     \<and> messages st1 = [\<lparr>role = User, content = Plain query\<rparr>]
     \<and> (\<exists>sent. trace st1 = trace st0 @ [Completion sent (Inr bs)])"
  by (auto simp: first_response_def Let_def split: if_splits prod.splits sum.splits)

lemma process_query_run:
  assumes "first_response env c query st0 = (Inr (bs, tools), st1)"
    and "process_query env c query st0 = (res, st')"
  obtains r where "process_content env tools bs st1 = (r, st')"
    and "res = (case r of Inl e \<Rightarrow> Inl e | Inr u \<Rightarrow> Inr (join NL (final_text st')))"
  using assms by (cases "process_content env tools bs st1")
    (auto simp: process_query_def split: sum.splits)

lemma process_query_events:
  assumes "first_response env c query st0 = (Inr (bs, tools), st1)"
    and "process_content env tools bs st1 = (r, st')"
  shows "\<exists>sent. new_events st0 st' = Completion sent (Inr bs) # new_events st1 st'"
proof -
  from first_response_Inr [OF assms(1)] obtain sent
    where "trace st1 = trace st0 @ [Completion sent (Inr bs)]" by blast
  with process_content_trace [OF assms(2)]
  have "trace st' = trace st0 @ (Completion sent (Inr bs) # new_events st1 st')" by simp
  then have "new_events st0 st' = Completion sent (Inr bs) # new_events st1 st'"
    by (rule new_events_eq)
  then show ?thesis by blast
qed

lemmas demo_simps = process_query_def first_response_def process_block_def demo_env_def
  connected_def start_def Let_def new_events_def calling_line_def py_str_def resolve_def
  MODEL_def MAX_TOKENS_def tool_schema_def assistant_message_content_def

lemma one_hop_first:
  "fst (first_response one_hop connected (ascii ''alerts?'') (start (0, 0))) = Inr (demo_first, [])"
  by (simp add: one_hop_def demo_simps)

lemma one_hop_result:
  "fst (process_query one_hop connected (ascii ''alerts?'') (start (0, 0)))
     = Inr (ascii ''Checking.'' @ NL @ ascii ''[Calling tool get_alerts with args {}]'' @ NL
              @ ascii ''No alerts.'' @ NL @ ascii ''Done.'')"
  by (simp add: one_hop_def demo_simps demo_first_def demo_second_def NL_def ascii_def)

lemma one_hop_events:
  "tool_calls (new_events (start (0, 0))
      (snd (process_query one_hop connected (ascii ''alerts?'') (start (0, 0)))))
     = [(ascii ''get_alerts'', JObj [])]"
  "continuations (new_events (start (0, 0))
      (snd (process_query one_hop connected (ascii ''alerts?'') (start (0, 0)))))
     = [Inr demo_second]"
  by (simp_all add: one_hop_def demo_simps demo_first_def demo_second_def)

text \<open>
  Claim C1. Once the first completion has answered, \<open>process_query\<close> is a loop over
  the blocks of that answer and nothing else: it makes at most one continuation call
  per \<open>tool_use\<close> block of the first response; the tools it calls are, in order, a
  prefix of the \<open>tool_use\<close> blocks of the first response, so no block of a
  continuation is ever dispatched; and when it returns a string, every
  \<open>tool_use\<close> block was called, each had exactly one continuation, and the string
  is the join of the buffer \<open>expected\<close> describes, which takes from a continuation
  the text of its first block only. \<open>process_query\<close> is a total function: it
  returns a string or raises on every input.
\<close>

theorem process_query_single_hop:
  assumes "first_response env c query st0 = (Inr (blocks, tools), st1)"
    and "process_query env c query st0 = (res, st')"
  shows "length (continuations (new_events st0 st')) \<le> length (tool_uses blocks)
     \<and> (\<exists>k. tool_calls (new_events st0 st') = take k (tool_uses blocks))
     \<and> (\<forall>text. res = Inr text \<longrightarrow>
           tool_calls (new_events st0 st') = tool_uses blocks
           \<and> length (continuations (new_events st0 st')) = length (tool_uses blocks)
           \<and> text = join NL (expected (repr_of env) blocks (continuations (new_events st0 st'))))"
proof -
  from assms obtain r where run: "process_content env tools blocks st1 = (r, st')"
    and res: "res = (case r of Inl e \<Rightarrow> Inl e | Inr u \<Rightarrow> Inr (join NL (final_text st')))"
    by (rule process_query_run)
  from process_query_events [OF assms(1) run] obtain sent
    where ev: "new_events st0 st' = Completion sent (Inr blocks) # new_events st1 st'" by blast
  have calls: "tool_calls (new_events st0 st') = tool_calls (new_events st1 st')"
    and conts: "continuations (new_events st0 st') = continuations (new_events st1 st')"
    using ev by simp_all
  from process_content_calls [OF run] obtain k
    where k: "tool_calls (new_events st1 st') = take k (tool_uses blocks)" by blast
  have bound: "length (continuations (new_events st0 st')) \<le> length (tool_uses blocks)"
    using process_content_continuations [OF run] k calls conts by simp
  have ok: "tool_calls (new_events st0 st') = tool_uses blocks
           \<and> length (continuations (new_events st0 st')) = length (tool_uses blocks)
           \<and> out = join NL (expected (repr_of env) blocks (continuations (new_events st0 st')))"
    if "res = Inr out" for out
  proof -
    from that res obtain u where r: "r = Inr u" and outeq: "out = join NL (final_text st')"
      by (cases r) auto
    from run r have "process_content env tools blocks st1 = (Inr u, st')" by simp
    from process_content_success [OF this] first_response_Inr [OF assms(1)] calls conts outeq
    show ?thesis by simp
  qed
  from bound k calls ok show ?thesis by metis
qed

theorem process_query_single_hop_witness:
  "length (continuations (new_events (start (0, 0))
      (snd (process_query one_hop connected (ascii ''alerts?'') (start (0, 0))))))
     \<le> length (tool_uses demo_first)
   \<and> tool_calls (new_events (start (0, 0))
      (snd (process_query one_hop connected (ascii ''alerts?'') (start (0, 0)))))
     = tool_uses demo_first
   \<and> fst (process_query one_hop connected (ascii ''alerts?'') (start (0, 0)))
     = Inr (join NL (expected (repr_of one_hop) demo_first [Inr demo_second]))"
  using process_query_single_hop
    [of one_hop connected "ascii ''alerts?''" "start (0, 0)" demo_first "[]"
        "snd (first_response one_hop connected (ascii ''alerts?'') (start (0, 0)))"
        "fst (process_query one_hop connected (ascii ''alerts?'') (start (0, 0)))"
        "snd (process_query one_hop connected (ascii ''alerts?'') (start (0, 0)))"]
    one_hop_first one_hop_result
  by (simp add: prod_eq_iff one_hop_events)

lemma process_block_error_calls:
  "process_block env tools b st = (Inl e, st') \<Longrightarrow> tool_uses [b] \<noteq> []"
  by (cases b) (auto simp: process_block_def)

lemma process_content_error_calls:
  "process_content env tools bs st = (Inl e, st') \<Longrightarrow> tool_calls (new_events st st') \<noteq> []"
proof (induction bs arbitrary: st)
  case Nil
  then show ?case by simp
next
  case (Cons b bs)
  obtain r1 st1 where step: "process_block env tools b st = (r1, st1)"
    by (cases "process_block env tools b st")
  show ?case
  proof (cases r1)
    case (Inl e1)
    with Cons.prems step have "st' = st1" by simp
    with process_block_calls [OF step] process_block_error_calls step Inl show ?thesis
      by metis
  next
    case (Inr u)
    with Cons.prems step have rest: "process_content env tools bs st1 = (Inl e, st')" by simp
    have "new_events st st' = new_events st st1 @ new_events st1 st'"
      using process_content_split step rest Inr by blast
    with Cons.IH [OF rest] show ?thesis by (simp add: tool_calls_append)
  qed
qed

lemma expected_no_tool_use: "tool_uses bs = [] \<Longrightarrow> expected str bs rs = texts bs"
  by (induction bs rule: texts.induct) simp_all

lemma expected_one_tool_use:
  "tool_uses bs = [(n, a)] \<Longrightarrow>
     \<exists>xs ys. expected str bs [Inr (TextBlock t # others)] = xs @ [calling_line str n a, t] @ ys"
proof (induction bs)
  case Nil
  then show ?case by simp
next
  case (Cons b bs)
  show ?case
  proof (cases b)
    case (TextBlock s)
    with Cons obtain xs ys
      where "expected str bs [Inr (TextBlock t # others)] = xs @ [calling_line str n a, t] @ ys"
      by auto
    with TextBlock have "expected str (b # bs) [Inr (TextBlock t # others)]
        = (s # xs) @ [calling_line str n a, t] @ ys" by simp
    then show ?thesis by blast
  next
    case (ToolUseBlock i m x)
    with Cons.prems have "m = n" "x = a" "tool_uses bs = []" by simp_all
    with ToolUseBlock have "expected str (b # bs) [Inr (TextBlock t # others)]
        = [] @ [calling_line str n a, t] @ texts bs"
      by (simp add: expected_no_tool_use)
    then show ?thesis by blast
  next
    case OtherBlock
    with Cons show ?thesis by simp
  qed
qed

lemma join_Cons_ex: "\<exists>r. join sep (t # ys) = t @ r"
  by (cases ys) simp_all

lemma join_middle:
  "\<exists>before after. join sep (xs @ [l, t] @ ys) = before @ l @ sep @ t @ after"
proof (induction xs)
  case Nil
  obtain r where "join sep (t # ys) = t @ r" using join_Cons_ex by blast
  then have "join sep ([] @ [l, t] @ ys) = [] @ l @ sep @ t @ r" by simp
  then show ?case by blast
next
  case (Cons x xs)
  then obtain before after
    where ih: "join sep (xs @ [l, t] @ ys) = before @ l @ sep @ t @ after" by blast
  obtain z zs where z: "xs @ [l, t] @ ys = z # zs" by (cases xs) simp_all
  have "join sep ((x # xs) @ [l, t] @ ys) = x @ sep @ join sep (xs @ [l, t] @ ys)"
    using z by simp
  with ih have "join sep ((x # xs) @ [l, t] @ ys) = (x @ sep @ before) @ l @ sep @ t @ after"
    by simp
  then show ?case by blast
qed

text \<open>The provider's own record of its invocations agrees with the \<open>ToolCall\<close>
  entries of the trace.\<close>

lemma records_calls_call:
  "records_calls env calls \<Longrightarrow> call_tool env m x w = (r, w') \<Longrightarrow> calls w' = calls w @ [(m, x)]"
  by (metis records_calls_def snd_conv)

lemma records_calls_create:
  "records_calls env calls \<Longrightarrow> messages_create env md k sent ts w = (r, w') \<Longrightarrow> calls w' = calls w"
  by (metis records_calls_def snd_conv)

lemma records_calls_list:
  "records_calls env calls \<Longrightarrow> list_tools env w = (r, w') \<Longrightarrow> calls w' = calls w"
  by (metis records_calls_def snd_conv)

lemma process_block_provider:
  assumes "process_block env tools b st = (r, st')" and rc: "records_calls env calls"
  shows "calls (world st') = calls (world st) @ tool_calls (new_events st st')"
proof (cases b)
  case (TextBlock t)
  with assms show ?thesis by (auto simp: process_block_def new_events_def)
next
  case OtherBlock
  with assms show ?thesis by (auto simp: process_block_def new_events_def)
next
  case (ToolUseBlock i n a)
  obtain r1 w1 where call: "call_tool env n a (world st) = (r1, w1)"
    by (cases "call_tool env n a (world st)")
  note c1 = records_calls_call [OF rc call]
  show ?thesis
  proof (cases r1)
    case (Inl e)
    with assms(1) ToolUseBlock call c1 show ?thesis
      by (auto simp: process_block_def new_events_def)
  next
    case (Inr result)
    from assms(1) ToolUseBlock call Inr c1 records_calls_create [OF rc]
    show ?thesis
      by (auto simp: process_block_def Let_def new_events_def
               split: prod.splits sum.splits list.splits content_block.splits)
  qed
qed

lemma process_content_provider:
  "process_content env tools bs st = (r, st') \<Longrightarrow> records_calls env calls \<Longrightarrow>
     calls (world st') = calls (world st) @ tool_calls (new_events st st')"
proof (induction bs arbitrary: st)
  case Nil
  then show ?case by (simp add: new_events_def)
next
  case (Cons b bs)
  obtain r1 st1 where step: "process_block env tools b st = (r1, st1)"
    by (cases "process_block env tools b st")
  note p1 = process_block_provider [OF step Cons.prems(2)]
  show ?case
  proof (cases r1)
    case (Inl e)
    with Cons.prems(1) step have "st' = st1" by simp
    with p1 show ?thesis by simp
  next
    case (Inr u)
    with Cons.prems(1) step have rest: "process_content env tools bs st1 = (r, st')" by simp
    have "new_events st st' = new_events st st1 @ new_events st1 st'"
      using process_content_split step rest Inr by blast
    with p1 Cons.IH [OF rest Cons.prems(2)] show ?thesis
      by (simp add: tool_calls_append)
  qed
qed

lemma first_response_provider:
  assumes "first_response env c query st0 = (r, st1)" and rc: "records_calls env calls"
  shows "calls (world st1) = calls (world st0)"
proof (cases "session c")
  case False
  with assms(1) show ?thesis by (auto simp: first_response_def Let_def)
next
  case True
  obtain r1 w1 where lt: "list_tools env (world st0) = (r1, w1)"
    by (cases "list_tools env (world st0)")
  note l1 = records_calls_list [OF rc lt]
  show ?thesis
  proof (cases r1)
    case (Inl e)
    with assms(1) True lt l1 show ?thesis by (auto simp: first_response_def Let_def)
  next
    case (Inr ts)
    from assms(1) True lt Inr l1 records_calls_create [OF rc] show ?thesis
      by (auto simp: first_response_def Let_def split: prod.splits sum.splits)
  qed
qed

text \<open>
  Claim C2. When the first response holds exactly one \<open>tool_use\<close> block, with name
  \<open>n\<close> and input \<open>a\<close>, \<open>process_query\<close> calls \<open>call_tool\<close> exactly once, with
  \<open>n\<close> and \<open>a\<close>, whatever happens afterwards: the trace holds that one call, and
  for every provider that keeps a record of the invocations it receives, the record
  has grown by exactly the entry \<open>(n, a)\<close> when \<open>process_query\<close> ends. When
  \<open>process_query\<close> returns a string, there was exactly one continuation, its first
  block is a text \<open>t\<close>, and the string contains the line
  \<open>[Calling tool n with args a]\<close> followed, after the newline of the join, by \<open>t\<close>.
\<close>

theorem process_query_one_tool_use:
  assumes "first_response env c query st0 = (Inr (blocks, tools), st1)"
    and "tool_uses blocks = [(n, a)]"
    and "process_query env c query st0 = (res, st')"
  shows "tool_calls (new_events st0 st') = [(n, a)]
     \<and> (records_calls env calls \<longrightarrow> calls (world st') = calls (world st0) @ [(n, a)])
     \<and> (\<forall>out. res = Inr out \<longrightarrow>
           (\<exists>t others before after.
              continuations (new_events st0 st') = [Inr (TextBlock t # others)]
              \<and> out = before @ calling_line (repr_of env) n a @ NL @ t @ after))"
proof -
  from assms(1,3) obtain r where run: "process_content env tools blocks st1 = (r, st')"
    and res: "res = (case r of Inl e \<Rightarrow> Inl e | Inr u \<Rightarrow> Inr (join NL (final_text st')))"
    by (rule process_query_run)
  from process_query_events [OF assms(1) run] obtain sent
    where ev: "new_events st0 st' = Completion sent (Inr blocks) # new_events st1 st'" by blast
  have calls: "tool_calls (new_events st0 st') = tool_calls (new_events st1 st')"
    and conts: "continuations (new_events st0 st') = continuations (new_events st1 st')"
    using ev by simp_all
  have once: "tool_calls (new_events st1 st') = [(n, a)]"
  proof (cases r)
    case (Inl e)
    from process_content_calls [OF run] assms(2) obtain k
      where "tool_calls (new_events st1 st') = take k [(n, a)]" by auto
    moreover have "tool_calls (new_events st1 st') \<noteq> []"
      using process_content_error_calls run Inl by blast
    ultimately show ?thesis by (cases k) simp_all
  next
    case (Inr u)
    with run process_content_success assms(2) show ?thesis by metis
  qed
  have provider: "calls (world st') = calls (world st0) @ [(n, a)]" if rc: "records_calls env calls"
  proof -
    from process_content_provider [OF run rc] first_response_provider [OF assms(1) rc] once
    show ?thesis by simp
  qed
  have shape: "\<exists>t others before after.
              continuations (new_events st0 st') = [Inr (TextBlock t # others)]
              \<and> out = before @ calling_line (repr_of env) n a @ NL @ t @ after"
    if "res = Inr out" for out
  proof -
    from that res obtain u where r: "r = Inr u" and outeq: "out = join NL (final_text st')"
      by (cases r) auto
    from run r have ok: "process_content env tools blocks st1 = (Inr u, st')" by simp
    note s = process_content_success [OF ok]
    from s assms(2) have len: "length (continuations (new_events st1 st')) = 1" by simp
    then obtain r0 where r0: "continuations (new_events st1 st') = [r0]"
      by (cases "continuations (new_events st1 st')") simp_all
    with s obtain t others where t: "r0 = Inr (TextBlock t # others)" by auto
    from expected_one_tool_use [OF assms(2)] obtain xs ys
      where "expected (repr_of env) blocks [Inr (TextBlock t # others)]
               = xs @ [calling_line (repr_of env) n a, t] @ ys" by blast
    with s r0 t first_response_Inr [OF assms(1)] outeq
    have "out = join NL (xs @ [calling_line (repr_of env) n a, t] @ ys)" by simp
    with join_middle obtain before after
      where "out = before @ calling_line (repr_of env) n a @ NL @ t @ after" by metis
    with r0 t conts show ?thesis by auto
  qed
  from once calls shape provider show ?thesis by simp
qed

lemma one_hop_recorded_records: "records_calls one_hop_recorded snd"
  by (simp add: records_calls_def one_hop_recorded_def recording_env_def)

lemmas recorded_simps = process_query_def first_response_def process_block_def recording_env_def
  connected_def start_def Let_def new_events_def calling_line_def py_str_def resolve_def
  MODEL_def MAX_TOKENS_def tool_schema_def assistant_message_content_def

lemma one_hop_recorded_first:
  "fst (first_response one_hop_recorded connected (ascii ''alerts?'') (start (0, [])))
     = Inr (demo_first, [])"
  by (simp add: one_hop_recorded_def recorded_simps)

lemma one_hop_recorded_result:
  "fst (process_query one_hop_recorded connected (ascii ''alerts?'') (start (0, [])))
     = Inr (ascii ''Checking.'' @ NL @ ascii ''[Calling tool get_alerts with args {}]'' @ NL
              @ ascii ''No alerts.'' @ NL @ ascii ''Done.'')"
  by (simp add: one_hop_recorded_def recorded_simps demo_first_def demo_second_def NL_def ascii_def)

theorem process_query_one_tool_use_witness:
  "records_calls one_hop_recorded snd
   \<and> tool_calls (new_events (start (0, []))
      (snd (process_query one_hop_recorded connected (ascii ''alerts?'') (start (0, [])))))
     = [(ascii ''get_alerts'', JObj [])]
   \<and> snd (world (snd (process_query one_hop_recorded connected (ascii ''alerts?'') (start (0, [])))))
     = [(ascii ''get_alerts'', JObj [])]
   \<and> (\<exists>t others before after.
         continuations (new_events (start (0, []))
           (snd (process_query one_hop_recorded connected (ascii ''alerts?'') (start (0, [])))))
           = [Inr (TextBlock t # others)]
         \<and> ascii ''Checking.'' @ NL @ ascii ''[Calling tool get_alerts with args {}]'' @ NL
              @ ascii ''No alerts.'' @ NL @ ascii ''Done.''
           = before
             @ calling_line (repr_of one_hop_recorded) (ascii ''get_alerts'') (JObj [])
             @ NL @ t @ after)"
proof -
  have first: "first_response one_hop_recorded connected (ascii ''alerts?'') (start (0, []))
      = (Inr (demo_first, []),
         snd (first_response one_hop_recorded connected (ascii ''alerts?'') (start (0, []))))"
    using one_hop_recorded_first by (simp add: prod_eq_iff)
  have one: "tool_uses demo_first = [(ascii ''get_alerts'', JObj [])]"
    by (simp add: demo_first_def)
  have run: "process_query one_hop_recorded connected (ascii ''alerts?'') (start (0, []))
      = (Inr (ascii ''Checking.'' @ NL @ ascii ''[Calling tool get_alerts with args {}]'' @ NL
                @ ascii ''No alerts.'' @ NL @ ascii ''Done.''),
         snd (process_query one_hop_recorded connected (ascii ''alerts?'') (start (0, []))))"
    using one_hop_recorded_result by (simp add: prod_eq_iff)
  have empty: "snd (world (start (0 :: nat, [] :: (pystr \<times> json) list)
                      :: (json, nat \<times> (pystr \<times> json) list) state)) = []"
    by (simp add: start_def)
  from process_query_one_tool_use [OF first one run, of snd] one_hop_recorded_records empty
  show ?thesis by auto
qed

lemma two_texts_first:
  "fst (first_response two_texts connected (ascii ''weather?'') (start (0, 0))) = Inr (demo_texts, [])"
  by (simp add: two_texts_def demo_simps)

text \<open>
  Claim C3, as stated, fails: the returned string is not the concatenation of the
  texts. On a first response of the two text blocks \<open>Sunny.\<close> and \<open>Mild.\<close> the
  result is \<open>Sunny.\<close>, a newline, \<open>Mild.\<close>.
\<close>

theorem process_query_text_only_counterexample:
  "fst (first_response two_texts connected (ascii ''weather?'') (start (0, 0))) = Inr (demo_texts, [])
   \<and> list_all is_text demo_texts
   \<and> fst (process_query two_texts connected (ascii ''weather?'') (start (0, 0)))
       = Inr (ascii ''Sunny.'' @ NL @ ascii ''Mild.'')
   \<and> fst (process_query two_texts connected (ascii ''weather?'') (start (0, 0)))
       \<noteq> Inr (concat (texts demo_texts))"
  by (simp add: two_texts_def demo_simps demo_texts_def NL_def ascii_def)

text \<open>
  Claim C3, amended. When the first response consists of text blocks only,
  \<open>process_query\<close> calls no tool and returns the texts of those blocks joined by
  a newline (line 147), which is their concatenation only when there is at most one.
\<close>

theorem process_query_text_only:
  assumes "first_response env c query st0 = (Inr (blocks, tools), st1)"
    and "\<forall>b \<in> set blocks. is_text b"
  shows "fst (process_query env c query st0) = Inr (join NL (texts blocks))
     \<and> tool_calls (new_events st0 (snd (process_query env c query st0))) = []"
proof -
  have none: "tool_uses blocks = []"
    using assms(2) by (induction blocks rule: tool_uses.induct) simp_all
  obtain res st' where pq: "process_query env c query st0 = (res, st')"
    by (cases "process_query env c query st0")
  from assms(1) pq obtain r where run: "process_content env tools blocks st1 = (r, st')"
    and res: "res = (case r of Inl e \<Rightarrow> Inl e | Inr u \<Rightarrow> Inr (join NL (final_text st')))"
    by (rule process_query_run)
  from process_query_events [OF assms(1) run] obtain sent
    where ev: "new_events st0 st' = Completion sent (Inr blocks) # new_events st1 st'" by blast
  from process_content_calls [OF run] none
  have calls: "tool_calls (new_events st1 st') = []" by auto
  then obtain u where r: "r = Inr u"
    using process_content_error_calls run by (cases r) blast+
  from run r have ok: "process_content env tools blocks st1 = (Inr u, st')" by simp
  from process_content_success [OF ok] first_response_Inr [OF assms(1)] none
  have "final_text st' = texts blocks" by (simp add: expected_no_tool_use)
  with res r pq ev calls show ?thesis by simp
qed

theorem process_query_text_only_witness:
  "fst (process_query two_texts connected (ascii ''weather?'') (start (0, 0)))
     = Inr (join NL [ascii ''Sunny.'', ascii ''Mild.''])
   \<and> tool_calls (new_events (start (0, 0))
        (snd (process_query two_texts connected (ascii ''weather?'') (start (0, 0))))) = []"
  using process_query_text_only
    [of two_texts connected "ascii ''weather?''" "start (0, 0)" demo_texts "[]"
        "snd (first_response two_texts connected (ascii ''weather?'') (start (0, 0)))"]
    two_texts_first
  by (simp add: prod_eq_iff demo_texts_def)

lemma process_block_bad_continuation:
  "process_block env tools b st = (r, st') \<Longrightarrow>
   Continuation sent (Inr resp) \<in> set (new_events st st') \<Longrightarrow>
     (resp = [] \<longrightarrow> r = Inl IndexError)
     \<and> (\<forall>x xs. resp = x # xs \<and> \<not> is_text x \<longrightarrow> r = Inl AttributeError)"
  by (cases b)
     (auto simp: process_block_def Let_def new_events_def
           split: prod.splits sum.splits list.splits content_block.splits)

lemma process_content_bad_continuation:
  "process_content env tools bs st = (r, st') \<Longrightarrow>
   Continuation sent (Inr resp) \<in> set (new_events st st') \<Longrightarrow>
     (resp = [] \<longrightarrow> r = Inl IndexError)
     \<and> (\<forall>x xs. resp = x # xs \<and> \<not> is_text x \<longrightarrow> r = Inl AttributeError)"
proof (induction bs arbitrary: st)
  case Nil
  then show ?case by (simp add: new_events_def)
next
  case (Cons b bs)
  obtain r1 st1 where step: "process_block env tools b st = (r1, st1)"
    by (cases "process_block env tools b st")
  show ?case
  proof (cases r1)
    case (Inl e)
    with Cons.prems(1) step have "st' = st1" "r = r1" by simp_all
    with process_block_bad_continuation [OF step] Cons.prems(2) show ?thesis by blast
  next
    case (Inr u)
    with Cons.prems(1) step have rest: "process_content env tools bs st1 = (r, st')" by simp
    have "new_events st st' = new_events st st1 @ new_events st1 st'"
      using process_content_split step rest Inr by blast
    with Cons.prems(2)
    consider "Continuation sent (Inr resp) \<in> set (new_events st st1)"
      | "Continuation sent (Inr resp) \<in> set (new_events st1 st')" by auto
    then show ?thesis
    proof cases
      case 1
      from process_block_bad_continuation [OF step 1] Inr
      have "resp \<noteq> []" and "\<And>x xs. resp = x # xs \<Longrightarrow> is_text x" by auto
      then show ?thesis by auto
    next
      case 2
      from Cons.IH [OF rest 2] show ?thesis .
    qed
  qed
qed

lemma first_response_events:
  "first_response env c query st0 = (r, st1) \<Longrightarrow>
     new_events st0 st1 = [] \<or> (\<exists>sent x. new_events st0 st1 = [Completion sent x])"
  by (auto simp: first_response_def Let_def new_events_def split: if_splits prod.splits sum.splits)

text \<open>
  Claim C10. If any continuation call of a run of \<open>process_query\<close> answered with an
  empty content, the run raised \<open>IndexError\<close> (\<open>response.content[0]\<close>); if it
  answered with a content whose first block is not a text block, the run raised
  \<open>AttributeError\<close> (\<open>.text\<close>). In both cases no string is returned.
\<close>

theorem process_query_bad_continuation:
  assumes "process_query env c query st0 = (res, st')"
    and "Continuation sent (Inr resp) \<in> set (new_events st0 st')"
  shows "(resp = [] \<longrightarrow> res = Inl IndexError)
     \<and> (\<forall>x xs. resp = x # xs \<and> \<not> is_text x \<longrightarrow> res = Inl AttributeError)"
proof -
  obtain r1 st1 where first: "first_response env c query st0 = (r1, st1)"
    by (cases "first_response env c query st0")
  show ?thesis
  proof (cases r1)
    case (Inl e)
    with first assms(1) have "st' = st1" by (simp add: process_query_def)
    with first_response_events [OF first] assms(2) show ?thesis by auto
  next
    case (Inr p)
    obtain blocks tools where p: "p = (blocks, tools)" by (cases p)
    with first Inr have f: "first_response env c query st0 = (Inr (blocks, tools), st1)" by simp
    from f assms(1) obtain r where run: "process_content env tools blocks st1 = (r, st')"
      and res: "res = (case r of Inl e \<Rightarrow> Inl e | Inr u \<Rightarrow> Inr (join NL (final_text st')))"
      by (rule process_query_run)
    from process_query_events [OF f run] assms(2)
    have "Continuation sent (Inr resp) \<in> set (new_events st1 st')" by auto
    from process_content_bad_continuation [OF run this] res show ?thesis by auto
  qed
qed

lemma empty_continuation_event:
  "\<exists>sent. Continuation sent (Inr [])
     \<in> set (new_events (start (0, 0))
             (snd (process_query empty_continuation connected (ascii ''alerts?'') (start (0, 0)))))"
  by (simp add: empty_continuation_def demo_simps demo_first_def)

lemma tool_continuation_event:
  "\<exists>sent. Continuation sent (Inr (rev demo_second))
     \<in> set (new_events (start (0, 0))
             (snd (process_query tool_continuation connected (ascii ''alerts?'') (start (0, 0)))))"
  by (simp add: tool_continuation_def demo_simps demo_first_def demo_second_def)

theorem process_query_bad_continuation_witness:
  "fst (process_query empty_continuation connected (ascii ''alerts?'') (start (0, 0)))
     = Inl IndexError
   \<and> fst (process_query tool_continuation connected (ascii ''alerts?'') (start (0, 0)))
     = Inl AttributeError"
proof -
  obtain s1 where e1: "Continuation s1 (Inr [])
     \<in> set (new_events (start (0, 0))
             (snd (process_query empty_continuation connected (ascii ''alerts?'') (start (0, 0)))))"
    using empty_continuation_event by blast
  obtain s2 where e2: "Continuation s2 (Inr (rev demo_second))
     \<in> set (new_events (start (0, 0))
             (snd (process_query tool_continuation connected (ascii ''alerts?'') (start (0, 0)))))"
    using tool_continuation_event by blast
  have shape: "rev demo_second
      = ToolUseBlock (ascii ''tu_2'') (ascii ''get_forecast'') (JObj []) # [TextBlock (ascii ''No alerts.'')]
        \<and> \<not> is_text (ToolUseBlock (ascii ''tu_2'') (ascii ''get_forecast'') (JObj []))"
    by (simp add: demo_second_def)
  from process_query_bad_continuation [OF prod.collapse [symmetric] e1]
       process_query_bad_continuation [OF prod.collapse [symmetric] e2] shape
  show ?thesis by blast
qed

lemma process_block_messages:
  "process_block env tools b st = (r, st') \<Longrightarrow> assistant_ok (messages st) \<Longrightarrow>
     assistant_ok (messages st')"
  by (cases b)
     (auto simp: process_block_def Let_def assistant_ok_def
           split: prod.splits sum.splits list.splits content_block.splits)

lemma process_block_heap:
  "process_block env tools b st = (Inr u, st') \<Longrightarrow>
     heap st' assistant_message_content = heap st assistant_message_content @ kept [b]
     \<and> length (filter (\<lambda>m. role m = Assistant) (messages st'))
         = length (filter (\<lambda>m. role m = Assistant) (messages st)) + length (tool_uses [b])"
  by (cases b)
     (auto simp: process_block_def Let_def kept_def
           split: prod.splits sum.splits list.splits content_block.splits)

lemma process_content_messages:
  "process_content env tools bs st = (r, st') \<Longrightarrow> assistant_ok (messages st) \<Longrightarrow>
     assistant_ok (messages st')"
proof (induction bs arbitrary: st)
  case Nil
  then show ?case by simp
next
  case (Cons b bs)
  obtain r1 st1 where step: "process_block env tools b st = (r1, st1)"
    by (cases "process_block env tools b st")
  note m1 = process_block_messages [OF step Cons.prems(2)]
  show ?case
  proof (cases r1)
    case (Inl e)
    with Cons.prems(1) step m1 show ?thesis by simp
  next
    case (Inr u)
    with Cons.prems(1) step have "process_content env tools bs st1 = (r, st')" by simp
    from Cons.IH [OF this m1] show ?thesis .
  qed
qed

lemma kept_Cons: "kept (b # bs) = kept [b] @ kept bs"
  by (simp add: kept_def)

lemma process_content_heap:
  "process_content env tools bs st = (Inr u, st') \<Longrightarrow>
     heap st' assistant_message_content = heap st assistant_message_content @ kept bs
     \<and> length (filter (\<lambda>m. role m = Assistant) (messages st'))
         = length (filter (\<lambda>m. role m = Assistant) (messages st)) + length (tool_uses bs)"
proof (induction bs arbitrary: st)
  case Nil
  then show ?case by (simp add: kept_def)
next
  case (Cons b bs)
  obtain r1 st1 where step: "process_block env tools b st = (r1, st1)"
    by (cases "process_block env tools b st")
  show ?case
  proof (cases r1)
    case (Inl e)
    with Cons.prems step show ?thesis by simp
  next
    case (Inr v)
    with Cons.prems step have rest: "process_content env tools bs st1 = (Inr u, st')" by simp
    from step Inr have "process_block env tools b st = (Inr v, st1)" by simp
    from process_block_heap [OF this] Cons.IH [OF rest] show ?thesis
      by (simp add: kept_Cons [of b bs] tool_uses_Cons [of b bs])
  qed
qed

text \<open>
  Claim C9. Every assistant message \<open>process_query\<close> appends holds the same
  reference, the address of \<open>assistant_message_content\<close>, whatever the outcome of
  the run. When the run returns a string there is one such message per \<open>tool_use\<close>
  block of the first response, and read through the heap each of them shows every
  \<open>text\<close> and \<open>tool_use\<close> block of the whole first response: the first message,
  appended at the first \<open>tool_use\<close> block, shows the blocks that came after it too.
\<close>

theorem process_query_shared_accumulator:
  assumes "first_response env c query st0 = (Inr (blocks, tools), st1)"
    and "process_query env c query st0 = (res, st')"
  shows "(\<forall>m \<in> set (messages st'). role m = Assistant \<longrightarrow>
            content m = ListRef assistant_message_content)
     \<and> (\<forall>out. res = Inr out \<longrightarrow>
           length (filter (\<lambda>m. role m = Assistant) (messages st')) = length (tool_uses blocks)
           \<and> (\<forall>m \<in> set (messages st'). role m = Assistant \<longrightarrow>
                 resolve (heap st') m = (Assistant, SentBlocks (kept blocks))))"
proof -
  from assms obtain r where run: "process_content env tools blocks st1 = (r, st')"
    and res: "res = (case r of Inl e \<Rightarrow> Inl e | Inr u \<Rightarrow> Inr (join NL (final_text st')))"
    by (rule process_query_run)
  note init = first_response_Inr [OF assms(1)]
  from init have "assistant_ok (messages st1)" by (simp add: assistant_ok_def)
  from process_content_messages [OF run this]
  have shared: "\<forall>m \<in> set (messages st'). role m = Assistant \<longrightarrow>
            content m = ListRef assistant_message_content"
    by (simp add: assistant_ok_def)
  have full: "length (filter (\<lambda>m. role m = Assistant) (messages st')) = length (tool_uses blocks)
           \<and> (\<forall>m \<in> set (messages st'). role m = Assistant \<longrightarrow>
                 resolve (heap st') m = (Assistant, SentBlocks (kept blocks)))"
    if "res = Inr out" for out
  proof -
    from that res obtain u where "r = Inr u" by (cases r) auto
    with run have "process_content env tools blocks st1 = (Inr u, st')" by simp
    from process_content_heap [OF this] init shared show ?thesis
      by (auto simp: resolve_def)
  qed
  from shared full show ?thesis by blast
qed

lemma two_hops_first:
  "fst (first_response two_hops connected (ascii ''weather?'') (start (0, 0))) = Inr (demo_two, [])"
  by (simp add: two_hops_def demo_simps)

lemma two_hops_result:
  "fst (process_query two_hops connected (ascii ''weather?'') (start (0, 0)))
     = Inr (join NL [ascii ''Checking.'', ascii ''[Calling tool get_alerts with args {}]'',
                     ascii ''No alerts.'', ascii ''[Calling tool get_forecast with args {}]'',
                     ascii ''Sunny.''])"
  by (simp add: two_hops_def demo_simps demo_two_def NL_def ascii_def)

lemma two_hops_first_sent:
  "hd (continuation_inputs (new_events (start (0, 0))
         (snd (process_query two_hops connected (ascii ''weather?'') (start (0, 0))))))
     = [(User, SentText (ascii ''weather?'')),
        (Assistant, SentBlocks (take 2 demo_two)),
        (User, SentToolResult (ascii ''tu_1'') (JStr (ascii ''sunny'')))]"
  by (simp add: two_hops_def demo_simps demo_two_def)

lemma two_hops_messages:
  "messages (snd (process_query two_hops connected (ascii ''weather?'') (start (0, 0))))
     = [\<lparr>role = User, content = Plain (ascii ''weather?'')\<rparr>,
        \<lparr>role = Assistant, content = ListRef assistant_message_content\<rparr>,
        \<lparr>role = User, content = ToolResult (ascii ''tu_1'') (JStr (ascii ''sunny''))\<rparr>,
        \<lparr>role = Assistant, content = ListRef assistant_message_content\<rparr>,
        \<lparr>role = User, content = ToolResult (ascii ''tu_2'') (JStr (ascii ''sunny''))\<rparr>]"
  by (simp add: two_hops_def demo_simps demo_two_def)

theorem process_query_shared_accumulator_witness:
  "2 \<le> length (tool_uses demo_two)
   \<and> length (filter (\<lambda>m. role m = Assistant)
        (messages (snd (process_query two_hops connected (ascii ''weather?'') (start (0, 0))))))
       = 2
   \<and> resolve (heap (snd (process_query two_hops connected (ascii ''weather?'') (start (0, 0)))))
        (\<lparr>role = Assistant, content = ListRef assistant_message_content\<rparr> :: json message)
       = (Assistant, SentBlocks demo_two)
   \<and> hd (continuation_inputs (new_events (start (0, 0))
         (snd (process_query two_hops connected (ascii ''weather?'') (start (0, 0))))))
       = [(User, SentText (ascii ''weather?'')),
          (Assistant, SentBlocks (take 2 demo_two)),
          (User, SentToolResult (ascii ''tu_1'') (JStr (ascii ''sunny'')))]"
proof -
  have first: "first_response two_hops connected (ascii ''weather?'') (start (0, 0))
      = (Inr (demo_two, []),
         snd (first_response two_hops connected (ascii ''weather?'') (start (0, 0))))"
    using two_hops_first by (simp add: prod_eq_iff)
  have run: "process_query two_hops connected (ascii ''weather?'') (start (0, 0))
      = (Inr (join NL [ascii ''Checking.'', ascii ''[Calling tool get_alerts with args {}]'',
                     ascii ''No alerts.'', ascii ''[Calling tool get_forecast with args {}]'',
                     ascii ''Sunny.'']),
         snd (process_query two_hops connected (ascii ''weather?'') (start (0, 0))))"
    using two_hops_result by (simp add: prod_eq_iff)
  have k: "kept demo_two = demo_two" "length (tool_uses demo_two) = 2"
    by (simp_all add: kept_def demo_two_def)
  from process_query_shared_accumulator [OF first run] two_hops_messages k two_hops_first_sent
  show ?thesis by simp
qed

subsection \<open>main\<close>

lemma cleanups_append: "cleanups (xs @ ys) = cleanups xs + cleanups ys"
  by (induction xs rule: cleanups.induct) simp_all

lemma process_block_cleanups:
  "process_block env tools b st = (r, st') \<Longrightarrow> cleanups (trace st') = cleanups (trace st)"
  by (cases b)
     (auto simp: process_block_def Let_def cleanups_append
           split: prod.splits sum.splits list.splits content_block.splits)

lemma process_content_cleanups:
  "process_content env tools bs st = (r, st') \<Longrightarrow> cleanups (trace st') = cleanups (trace st)"
proof (induction bs arbitrary: st)
  case Nil
  then show ?case by simp
next
  case (Cons b bs)
  obtain r1 st1 where step: "process_block env tools b st = (r1, st1)"
    by (cases "process_block env tools b st")
  note c1 = process_block_cleanups [OF step]
  show ?case
  proof (cases r1)
    case (Inl e)
    with Cons.prems step c1 show ?thesis by simp
  next
    case (Inr u)
    with Cons.prems step have "process_content env tools bs st1 = (r, st')" by simp
    from Cons.IH [OF this] c1 show ?thesis by simp
  qed
qed

lemma first_response_cleanups:
  "first_response env c query st0 = (r, st1) \<Longrightarrow> cleanups (trace st1) = cleanups (trace st0)"
  by (auto simp: first_response_def Let_def cleanups_append split: if_splits prod.splits sum.splits)

lemma process_query_cleanups:
  assumes "process_query env c query st0 = (r, st')"
  shows "cleanups (trace st') = cleanups (trace st0)"
proof -
  obtain r1 st1 where first: "first_response env c query st0 = (r1, st1)"
    by (cases "first_response env c query st0")
  note c1 = first_response_cleanups [OF first]
  show ?thesis
  proof (cases r1)
    case (Inl e)
    with first assms c1 show ?thesis by (simp add: process_query_def)
  next
    case (Inr p)
    obtain blocks tools where p: "p = (blocks, tools)" by (cases p)
    obtain r2 st2 where run: "process_content env tools blocks st1 = (r2, st2)"
      by (cases "process_content env tools blocks st1")
    with first Inr p assms have "st' = st2" by (auto simp: process_query_def split: sum.splits)
    with process_content_cleanups [OF run] c1 show ?thesis by simp
  qed
qed

lemma connect_to_server_cleanups:
  "connect_to_server env c p st = (r, c', st') \<Longrightarrow> cleanups (trace st') = cleanups (trace st)"
  by (auto simp: connect_to_server_def Let_def cleanups_append
           split: prod.splits option.splits sum.splits)

lemma finally_cleanup_cleanups:
  "finally_cleanup env c r st = (out, st') \<Longrightarrow> cleanups (trace st') = Suc (cleanups (trace st))"
  by (auto simp: finally_cleanup_def cleanup_def cleanups_append
           split: prod.splits option.splits sum.splits)


lemma chat_iterations_cleanups:
  assumes "chat_iterations env0 c0 st0 = Some y0"
  shows "cleanups (trace (snd y0)) = cleanups (trace st0)"
proof (rule chat_iterations.raw_induct
    [where P = "\<lambda>env c st y. cleanups (trace (snd y)) = cleanups (trace st)"
       and env = env0 and c = c0 and st = st0 and y = y0], goal_cases)
  case (1 loop env c st y)
  note IH = "1"(1) and body = "1"(2)
  obtain r w1 where inp: "read_input env (world st) = (r, w1)"
    by (cases "read_input env (world st)")
  show ?case
  proof (cases r)
    case (Inl e)
    show ?thesis
    proof (cases "is_Exception e")
      case True
      with body inp Inl
      have "loop env c (st\<lparr>world := w1, trace := trace st @ [Printed (ErrorLine e)]\<rparr>) = Some y"
        by simp
      from IH [OF this] show ?thesis by (simp add: cleanups_append)
    next
      case False
      with body inp Inl show ?thesis by auto
    qed
  next
    case (Inr line)
    show ?thesis
    proof (cases "lower env (strip env line) = ascii ''quit''")
      case True
      with body inp Inr show ?thesis by auto
    next
      case False
      obtain r2 st2 where pq: "process_query env c (strip env line) (st\<lparr>world := w1\<rparr>) = (r2, st2)"
        by (cases "process_query env c (strip env line) (st\<lparr>world := w1\<rparr>)")
      from process_query_cleanups [OF pq] have c2: "cleanups (trace st2) = cleanups (trace st)"
        by simp
      show ?thesis
      proof (cases r2)
        case (Inl e)
        show ?thesis
        proof (cases "is_Exception e")
          case True
          with body inp Inr False pq Inl
          have "loop env c (st2\<lparr>trace := trace st2 @ [Printed (ErrorLine e)]\<rparr>) = Some y"
            by simp
          from IH [OF this] c2 show ?thesis by (simp add: cleanups_append)
        next
          case nonexc: False
          with body inp Inr False pq Inl c2 show ?thesis by auto
        qed
      next
        case answered: (Inr response)
        with body inp Inr False pq
        have "loop env c (st2\<lparr>trace := trace st2 @ [Printed (Answer response)]\<rparr>) = Some y"
          by simp
        from IH [OF this] c2 show ?thesis by (simp add: cleanups_append)
      qed
    qed
  qed
next
  case 2
  show ?case by (rule assms)
qed

lemmas main_simps = main_def connect_to_server_def interpreter_def endswith_def ascii_def
  demo_env_def new_client_def start_def chat_loop_def chat_iterations.simps
  finally_cleanup_def cleanup_def ascii_strip_def ascii_lower_def Let_def demo_argv_def
  process_query_def first_response_def process_block_def resolve_def MODEL_def MAX_TOKENS_def
  tool_schema_def assistant_message_content_def calling_line_def py_str_def

text \<open>
  Claim C8, as stated, fails on one exit path of \<open>main\<close>: started without a script
  argument, the run prints the usage line and leaves through \<open>sys.exit(1)\<close> before
  the client exists and before the \<open>try\<close> block, and \<open>cleanup\<close> is not called.
\<close>

theorem main_cleanup_counterexample:
  "main (demo_env [] []) [ascii ''client.py''] (0, 0)
     = Some (SystemExit 1, (start (0, 0))\<lparr>trace := [Printed Usage]\<rparr>)
   \<and> cleanups (trace ((start (0 :: nat, 0 :: nat) :: (json, nat \<times> nat) state)
                         \<lparr>trace := [Printed Usage]\<rparr>)) = 0"
  by (simp add: main_def)

text \<open>
  Claim C8, amended. Every run of \<open>main\<close> that was given a script argument and that
  ends (the chat loop ended at \<open>quit\<close>, or an exception left \<open>connect_to_server\<close>,
  the console or \<open>process_query\<close> and was not caught by the loop) has called
  \<open>cleanup\<close> exactly once.
\<close>

theorem main_cleanup_once:
  assumes "main env argv w = Some (out, st)" and "2 \<le> length argv"
  shows "cleanups (trace st) = 1"
proof -
  obtain r c1 st1 where conn: "connect_to_server env new_client (argv ! 1) (start w) = (r, c1, st1)"
    by (cases "connect_to_server env new_client (argv ! 1) (start w)")
  from connect_to_server_cleanups [OF conn] have c1: "cleanups (trace st1) = 0"
    by (simp add: start_def)
  show ?thesis
  proof (cases r)
    case (Inl e)
    with assms conn have "finally_cleanup env c1 (Inl e) st1 = (out, st)"
      by (simp add: main_def)
    from finally_cleanup_cleanups [OF this] c1 show ?thesis by simp
  next
    case (Inr u)
    with assms conn obtain r2 st2 where loop: "chat_loop env c1 st1 = Some (r2, st2)"
      and fin: "finally_cleanup env c1 r2 st2 = (out, st)"
      by (auto simp: main_def split: option.splits)
    from loop chat_iterations_cleanups have "cleanups (trace st2) = cleanups (trace st1)"
      by (fastforce simp: chat_loop_def cleanups_append)
    with finally_cleanup_cleanups [OF fin] c1 show ?thesis by simp
  qed
qed

lemma quit_run:
  "\<exists>st. main (demo_env [Inr (ascii '' Quit '')] []) demo_argv (0, 0) = Some (Returned, st)"
  by (simp add: main_simps)

lemma no_server_run:
  "\<exists>st. main no_server demo_argv (0, 0) = Some (Raised (Failed (ascii ''spawn'')), st)"
  by (simp add: main_simps no_server_def)

lemma interrupted_query_run:
  "\<exists>st. main (demo_env [Inr (ascii ''weather?'')] [Inl Interrupted]) demo_argv (0, 0)
     = Some (Raised Interrupted, st)"
  by (simp add: main_simps)

lemma caught_failure_run:
  "\<exists>st. main (demo_env [Inr (ascii ''weather?''), Inr (ascii ''quit'')] []) demo_argv (0, 0)
     = Some (Returned, st)"
  by (simp add: main_simps)

theorem main_cleanup_once_witness:
  "(\<exists>st. main (demo_env [Inr (ascii '' Quit '')] []) demo_argv (0, 0) = Some (Returned, st)
        \<and> cleanups (trace st) = 1)
   \<and> (\<exists>st. main no_server demo_argv (0, 0) = Some (Raised (Failed (ascii ''spawn'')), st)
        \<and> cleanups (trace st) = 1)
   \<and> (\<exists>st. main (demo_env [Inr (ascii ''weather?'')] [Inl Interrupted]) demo_argv (0, 0)
          = Some (Raised Interrupted, st)
        \<and> cleanups (trace st) = 1)
   \<and> (\<exists>st. main (demo_env [Inr (ascii ''weather?''), Inr (ascii ''quit'')] []) demo_argv (0, 0)
          = Some (Returned, st)
        \<and> cleanups (trace st) = 1)"
proof -
  have two: "2 \<le> length demo_argv" by (simp add: demo_argv_def)
  obtain s1 where r1: "main (demo_env [Inr (ascii '' Quit '')] []) demo_argv (0, 0)
      = Some (Returned, s1)"
    using quit_run by blast
  obtain s2 where r2: "main no_server demo_argv (0, 0) = Some (Raised (Failed (ascii ''spawn'')), s2)"
    using no_server_run by blast
  obtain s3 where r3: "main (demo_env [Inr (ascii ''weather?'')] [Inl Interrupted]) demo_argv (0, 0)
      = Some (Raised Interrupted, s3)"
    using interrupted_query_run by blast
  obtain s4 where r4: "main (demo_env [Inr (ascii ''weather?''), Inr (ascii ''quit'')] [])
      demo_argv (0, 0) = Some (Returned, s4)"
    using caught_failure_run by blast
  from main_cleanup_once [OF r1 two] main_cleanup_once [OF r2 two]
       main_cleanup_once [OF r3 two] main_cleanup_once [OF r4 two] r1 r2 r3 r4
  show ?thesis by blast
qed

end
